theory Spec2Isabelle
  imports Complex_Main
begin

section \<open>Image-quality metrics of \<^verbatim>\<open>fetal_brain_qc/metrics/utils.py\<close>\<close>

text \<open>
  The metrics are pure functions on numpy arrays.  The embedding keeps the structure of the
  Python code: every exception is a value of type \<open>error\<close>, every float64 result is a value
  of type \<open>fl\<close>, which has the finite values (as exact reals) and the three special values
  of IEEE arithmetic.  Rounding is not modelled: a finite result is the exact real number
  that the float approximates.  The model has one zero, so a finite non-zero value divided
  by zero is the infinity with the sign of the numerator.
\<close>

subsection \<open>Exceptions and float values\<close>

datatype error = ValueError | TypeError | IndexError

datatype fl = Fin real | PInf | NInf | NaN

fun is_finite :: "fl \<Rightarrow> bool" where
  "is_finite (Fin r) = True"
| "is_finite PInf = False"
| "is_finite NInf = False"
| "is_finite NaN = False"

fun fl_sign :: "fl \<Rightarrow> real" where
  "fl_sign (Fin r) = sgn r"
| "fl_sign PInf = 1"
| "fl_sign NInf = - 1"
| "fl_sign NaN = 0"

definition inf_of_sign :: "real \<Rightarrow> fl" where
  "inf_of_sign s = (if s = 0 then NaN else if 0 < s then PInf else NInf)"

fun fl_neg :: "fl \<Rightarrow> fl" where
  "fl_neg (Fin r) = Fin (- r)"
| "fl_neg PInf = NInf"
| "fl_neg NInf = PInf"
| "fl_neg NaN = NaN"

fun fl_add :: "fl \<Rightarrow> fl \<Rightarrow> fl" where
  "fl_add (Fin a) (Fin b) = Fin (a + b)"
| "fl_add NaN y = NaN"
| "fl_add x NaN = NaN"
| "fl_add PInf NInf = NaN"
| "fl_add NInf PInf = NaN"
| "fl_add PInf y = PInf"
| "fl_add NInf y = NInf"
| "fl_add x PInf = PInf"
| "fl_add x NInf = NInf"

definition fl_sub :: "fl \<Rightarrow> fl \<Rightarrow> fl" where
  "fl_sub x y = fl_add x (fl_neg y)"

fun fl_mul :: "fl \<Rightarrow> fl \<Rightarrow> fl" where
  "fl_mul (Fin a) (Fin b) = Fin (a * b)"
| "fl_mul NaN y = NaN"
| "fl_mul x NaN = NaN"
| "fl_mul x y = inf_of_sign (fl_sign x * fl_sign y)"

text \<open>
  Division of numpy float64 scalars never raises: a zero divisor gives NaN or an infinity
  (and a warning).
\<close>

fun fl_div :: "fl \<Rightarrow> fl \<Rightarrow> fl" where
  "fl_div (Fin a) (Fin b) = (if b = 0 then inf_of_sign (sgn a) else Fin (a / b))"
| "fl_div NaN y = NaN"
| "fl_div x NaN = NaN"
| "fl_div (Fin a) y = Fin 0"
| "fl_div x (Fin b) = (if b < 0 then fl_neg x else x)"
| "fl_div x y = NaN"

fun fl_sqrt :: "fl \<Rightarrow> fl" where
  "fl_sqrt (Fin r) = (if r < 0 then NaN else Fin (sqrt r))"
| "fl_sqrt PInf = PInf"
| "fl_sqrt NInf = NaN"
| "fl_sqrt NaN = NaN"

fun fl_log :: "fl \<Rightarrow> fl" where
  "fl_log (Fin r) = (if r < 0 then NaN else if r = 0 then NInf else Fin (ln r))"
| "fl_log PInf = PInf"
| "fl_log NInf = NaN"
| "fl_log NaN = NaN"

text \<open>\<^verbatim>\<open>p != 0\<close>: a NaN differs from everything.\<close>

fun fl_ne :: "fl \<Rightarrow> fl \<Rightarrow> bool" where
  "fl_ne NaN y = True"
| "fl_ne x NaN = True"
| "fl_ne x y = (x \<noteq> y)"

text \<open>Python's builtin \<^verbatim>\<open>sum\<close> adds from the left, starting at 0; \<^verbatim>\<open>np.sum\<close> of floats.\<close>

definition py_sum :: "fl list \<Rightarrow> fl" where
  "py_sum xs = foldl fl_add (Fin 0) xs"

subsection \<open>Arrays\<close>

text \<open>
  A numpy array is its shape and its elements in row-major order (what \<^verbatim>\<open>flatten\<close>
  returns).  The elements of an input image are finite floats (reals); a boolean array has
  elements of type \<open>bool\<close>, an array computed by float arithmetic elements of type \<open>fl\<close>.
\<close>

record 'a ndarray =
  shape :: "nat list"
  data :: "'a list"

definition wf :: "'a ndarray \<Rightarrow> bool" where
  "wf x = (length (data x) = prod_list (shape x))"

definition asize :: "'a ndarray \<Rightarrow> nat" where
  "asize x = prod_list (shape x)"

definition array1 :: "'a list \<Rightarrow> 'a ndarray" where
  "array1 vs = \<lparr>shape = [length vs], data = vs\<rparr>"

definition array2 :: "nat \<Rightarrow> nat \<Rightarrow> 'a list \<Rightarrow> 'a ndarray" where
  "array2 r c vs = \<lparr>shape = [r, c], data = vs\<rparr>"

definition np_negative :: "real ndarray \<Rightarrow> real ndarray" where
  "np_negative x = x\<lparr>data := map uminus (data x)\<rparr>"

definition np_abs :: "real ndarray \<Rightarrow> real ndarray" where
  "np_abs x = x\<lparr>data := map abs (data x)\<rparr>"

text \<open>\<^verbatim>\<open>x.mean()\<close>: the sum over the element count; NaN for an empty array.\<close>

definition np_mean :: "real ndarray \<Rightarrow> fl" where
  "np_mean x = fl_div (Fin (sum_list (data x))) (Fin (real (asize x)))"

definition fl_mean :: "fl ndarray \<Rightarrow> fl" where
  "fl_mean x = fl_div (py_sum (data x)) (Fin (real (asize x)))"

text \<open>
  \<^verbatim>\<open>x.std(ddof=d)\<close>: the square root of the sum of the squared deviations from the mean
  over \<^verbatim>\<open>max(N - d, 0)\<close>.
\<close>

definition np_std :: "nat \<Rightarrow> real ndarray \<Rightarrow> fl" where
  "np_std ddof x =
     (let arrmean = np_mean x;
          dev = map (\<lambda>v. fl_sub (Fin v) arrmean) (data x);
          ret = py_sum (map (\<lambda>v. fl_mul v v) dev);
          rcount = asize x - ddof
      in fl_sqrt (fl_div ret (Fin (real rcount))))"

text \<open>\<^verbatim>\<open>np.amax\<close>, \<^verbatim>\<open>np.amin\<close>: a reduction without identity, ValueError on an empty array.\<close>

definition np_amax :: "real ndarray \<Rightarrow> error + real" where
  "np_amax x = (case data x of [] \<Rightarrow> Inl ValueError | v # vs \<Rightarrow> Inr (fold max vs v))"

definition np_amin :: "real ndarray \<Rightarrow> error + real" where
  "np_amin x = (case data x of [] \<Rightarrow> Inl ValueError | v # vs \<Rightarrow> Inr (fold min vs v))"

text \<open>Python's builtin \<^verbatim>\<open>min(a, b)\<close> returns \<open>b\<close> only when \<open>b < a\<close>; \<^verbatim>\<open>int\<close> truncates towards zero.\<close>

definition py_min :: "real \<Rightarrow> real \<Rightarrow> real" where
  "py_min a b = (if b < a then b else a)"

definition py_int :: "real \<Rightarrow> int" where
  "py_int r = (if 0 \<le> r then \<lfloor>r\<rfloor> else \<lceil>r\<rceil>)"

subsubsection \<open>Broadcasting\<close>

text \<open>
  Shapes are aligned at their last axes; two axis lengths are compatible when they are
  equal or one of them is 1.  \<open>bshape\<close> works on the reversed shapes.
\<close>

fun bshape :: "nat list \<Rightarrow> nat list \<Rightarrow> nat list option" where
  "bshape [] bs = Some bs"
| "bshape (a # as) [] = Some (a # as)"
| "bshape (a # as) (b # bs) =
     (if a = b \<or> b = 1 then map_option ((#) a) (bshape as bs)
      else if a = 1 then map_option ((#) b) (bshape as bs)
      else None)"

definition broadcast_shape :: "nat list \<Rightarrow> nat list \<Rightarrow> nat list option" where
  "broadcast_shape s t = map_option rev (bshape (rev s) (rev t))"

text \<open>\<open>bcast t s d\<close>: the elements \<open>d\<close> of an array of shape \<open>s\<close> repeated to the shape \<open>t\<close>
  (of the same length as \<open>s\<close>).\<close>

fun bcast :: "nat list \<Rightarrow> nat list \<Rightarrow> 'a list \<Rightarrow> 'a list" where
  "bcast (t # ts) (s # ss) d =
     (let m = prod_list ss
      in if s = t then concat (map (\<lambda>i. bcast ts ss (take m (drop (i * m) d))) [0..<s])
         else concat (replicate t (bcast ts ss d)))"
| "bcast ts ss d = d"

definition broadcast_to :: "nat list \<Rightarrow> 'a ndarray \<Rightarrow> 'a list" where
  "broadcast_to t x = bcast t (replicate (length t - length (shape x)) 1 @ shape x) (data x)"

text \<open>\<^verbatim>\<open>x - y\<close>: ValueError when the shapes cannot be broadcast together.\<close>

definition np_sub :: "real ndarray \<Rightarrow> real ndarray \<Rightarrow> error + real ndarray" where
  "np_sub x y =
     (case broadcast_shape (shape x) (shape y) of
        None \<Rightarrow> Inl ValueError
      | Some t \<Rightarrow> Inr \<lparr>shape = t, data = map2 (-) (broadcast_to t x) (broadcast_to t y)\<rparr>)"

subsubsection \<open>The builtin \<^verbatim>\<open>sum\<close> on an array, and the truth value of an array\<close>

text \<open>
  \<^verbatim>\<open>sum(a)\<close> iterates over the first axis and adds the sub-arrays \<^verbatim>\<open>a[0]\<close>, \<^verbatim>\<open>a[1]\<close>, ...
  to the integer 0: the result has the shape of \<^verbatim>\<open>a[0]\<close> (a scalar for a one-dimensional
  array), and it is the integer 0 when the first axis is empty.  A zero-dimensional array
  cannot be iterated over (TypeError).
\<close>

definition builtin_sum :: "real ndarray \<Rightarrow> error + real ndarray" where
  "builtin_sum a =
     (case shape a of
        [] \<Rightarrow> Inl TypeError
      | n # rest \<Rightarrow>
          if n = 0 then Inr \<lparr>shape = [], data = [0]\<rparr>
          else let m = prod_list rest
               in Inr \<lparr>shape = rest,
                       data = map (\<lambda>j. sum_list (map (\<lambda>i. data a ! (i * m + j)) [0..<n])) [0..<m]\<rparr>)"

text \<open>
  \<^verbatim>\<open>if arr:\<close> is the element of an array with one element; an array with more than one
  element has no truth value (ValueError); an empty array is false (numpy 1.x, with a
  deprecation warning).
\<close>

definition truth_value :: "bool ndarray \<Rightarrow> error + bool" where
  "truth_value b =
     (case data b of [] \<Rightarrow> Inr False | [v] \<Rightarrow> Inr v | _ # _ # _ \<Rightarrow> Inl ValueError)"

subsubsection \<open>Indexing with a boolean array\<close>

text \<open>
  \<^verbatim>\<open>a[b]\<close>: the shape of \<open>b\<close> has to be a prefix of the shape of \<open>a\<close> (IndexError
  otherwise); the result holds the sub-arrays of \<open>a\<close> at the true positions of \<open>b\<close>.
\<close>

definition bool_index :: "'a ndarray \<Rightarrow> bool ndarray \<Rightarrow> error + 'a ndarray" where
  "bool_index a b =
     (let k = length (shape b)
      in if k \<le> length (shape a) \<and> take k (shape a) = shape b then
           let rest = drop k (shape a);
               m = prod_list rest;
               chunks = map (\<lambda>i. take m (drop (i * m) (data a))) [0..<length (data b)];
               sel = map snd (filter fst (zip (data b) chunks))
           in Inr \<lparr>shape = length sel # rest, data = concat sel\<rparr>
         else Inl IndexError)"

subsubsection \<open>Histograms\<close>

text \<open>
  \<^verbatim>\<open>np.histogram(x, bins=n)\<close> and \<^verbatim>\<open>np.histogram2d(x, y, bins=n)\<close> with an integer \<open>n\<close>:
  \<open>n\<close> bins of equal width between the minimum and the maximum of the data (of each
  axis), widened by one half on each side when the two are equal, and \<open>(0, 1)\<close> for no
  data.  A value on the last edge belongs to the last bin.  Both raise ValueError for
  \<open>n < 1\<close>, and \<^verbatim>\<open>histogram2d\<close> for samples of different lengths.

  The edges are the exact ones.  numpy computes them in float64 (\<^verbatim>\<open>linspace\<close>), so a value
  within rounding distance of an inner edge can be counted in the neighbouring bin there:
  the counts below are those of numpy where the edges are exact floats, and the properties
  proved of histograms of arbitrary arrays do not depend on where the inner edges lie.
\<close>

definition outer_edges :: "real list \<Rightarrow> real \<times> real" where
  "outer_edges a =
     (let (first_edge, last_edge) = (case a of [] \<Rightarrow> (0, 1) | v # vs \<Rightarrow> (fold min vs v, fold max vs v))
      in if first_edge = last_edge then (first_edge - 1 / 2, last_edge + 1 / 2)
         else (first_edge, last_edge))"

definition bin_index :: "real \<times> real \<Rightarrow> int \<Rightarrow> real \<Rightarrow> int" where
  "bin_index edges n v =
     (let i = \<lfloor>(v - fst edges) / (snd edges - fst edges) * of_int n\<rfloor>
      in if i = n then i - 1 else i)"

definition np_histogram :: "real ndarray \<Rightarrow> int \<Rightarrow> error + nat list" where
  "np_histogram x bins =
     (if bins < 1 then Inl ValueError
      else let edges = outer_edges (data x)
           in Inr (map (\<lambda>i. length (filter (\<lambda>v. bin_index edges bins v = int i) (data x)))
                       [0..<nat bins]))"

definition np_histogram2d :: "real list \<Rightarrow> real list \<Rightarrow> int \<Rightarrow> error + nat list list" where
  "np_histogram2d xs ys bins =
     (if length xs \<noteq> length ys then Inl ValueError
      else if bins < 1 then Inl ValueError
      else let xedges = outer_edges xs; yedges = outer_edges ys
           in Inr (map (\<lambda>i. map (\<lambda>j. length (filter (\<lambda>(u, v). bin_index xedges bins u = int i
                                                           \<and> bin_index yedges bins v = int j)
                                                    (zip xs ys)))
                                 [0..<nat bins])
                       [0..<nat bins]))"

subsection \<open>\<^verbatim>\<open>normalized_cross_correlation\<close>\<close>

definition normalized_cross_correlation :: "real ndarray \<Rightarrow> real ndarray \<Rightarrow> error + fl" where
  "normalized_cross_correlation x x_ref =
     (if shape x \<noteq> shape x_ref then Inl ValueError
      else
        let xm = np_mean x;
            rm = np_mean x_ref;
            ncc = py_sum (map2 fl_mul (map (\<lambda>v. fl_sub (Fin v) xm) (data x))
                                        (map (\<lambda>v. fl_sub (Fin v) rm) (data x_ref)))
        in Inr (fl_div ncc
                 (fl_mul (fl_mul (Fin (real (asize x))) (np_std 1 x)) (np_std 1 x_ref))))"

subsection \<open>Entropies\<close>

text \<open>
  The two lines after the histogram are the same in \<^verbatim>\<open>shannon_entropy\<close> and in
  \<^verbatim>\<open>joint_entropy\<close>: the counts over their sum, and minus the sum of \<open>p * log p\<close> over the
  probabilities \<open>p != 0\<close> of the flattened histogram.  The sum is the exact one: the
  float64 sum of the code differs from it by the rounding of the logarithms, of the products
  and of the additions, so an inequality that the exact sum attains is not one of the code.
\<close>

definition prob_entropy :: "nat list \<Rightarrow> fl" where
  "prob_entropy hist =
     (let total = Fin (real (sum_list hist));
          prob = map (\<lambda>c. fl_div (Fin (real c)) total) hist
      in fl_neg (py_sum (map (\<lambda>p. fl_mul p (fl_log p)) (filter (\<lambda>p. fl_ne p (Fin 0)) prob))))"

definition shannon_entropy :: "real ndarray \<Rightarrow> int \<Rightarrow> error + fl" where
  "shannon_entropy x bins =
     (case np_histogram x bins of
        Inl e \<Rightarrow> Inl e
      | Inr hist \<Rightarrow> Inr (prob_entropy hist))"

definition joint_entropy :: "real ndarray \<Rightarrow> real ndarray \<Rightarrow> int \<Rightarrow> error + fl" where
  "joint_entropy x x_ref bins =
     (case np_histogram2d (data x) (data x_ref) bins of
        Inl e \<Rightarrow> Inl e
      | Inr hist \<Rightarrow> Inr (prob_entropy (concat hist)))"

definition mutual_information :: "real ndarray \<Rightarrow> real ndarray \<Rightarrow> int \<Rightarrow> error + fl" where
  "mutual_information x x_ref bins =
     (case shannon_entropy x bins of
        Inl e \<Rightarrow> Inl e
      | Inr h1 \<Rightarrow>
          (case shannon_entropy x_ref bins of
             Inl e \<Rightarrow> Inl e
           | Inr h2 \<Rightarrow>
               (case joint_entropy x x_ref bins of
                  Inl e \<Rightarrow> Inl e
                | Inr j \<Rightarrow> Inr (fl_sub (fl_add h1 h2) j))))"

definition normalized_mutual_information :: "real ndarray \<Rightarrow> real ndarray \<Rightarrow> int \<Rightarrow> error + fl" where
  "normalized_mutual_information x x_ref bins =
     (case shannon_entropy x bins of
        Inl e \<Rightarrow> Inl e
      | Inr h1 \<Rightarrow>
          (case shannon_entropy x_ref bins of
             Inl e \<Rightarrow> Inl e
           | Inr h2 \<Rightarrow>
               (case joint_entropy x x_ref bins of
                  Inl e \<Rightarrow> Inl e
                | Inr j \<Rightarrow> Inr (fl_div (fl_add h1 h2) j))))"

subsection \<open>\<^verbatim>\<open>psnr\<close> and \<^verbatim>\<open>ssim\<close>\<close>

text \<open>
  \<^verbatim>\<open>datarange\<close> is \<^verbatim>\<open>None\<close> or a number; \<^verbatim>\<open>not datarange\<close> holds for \<^verbatim>\<open>None\<close> and for zero.
  The inferred range is \<^verbatim>\<open>int(np.amax(x_ref) - min(np.amin(x), np.amin(x_ref)))\<close>.
\<close>

definition py_not :: "real option \<Rightarrow> bool" where
  "py_not datarange = (case datarange of None \<Rightarrow> True | Some r \<Rightarrow> r = 0)"

definition infer_datarange :: "real ndarray \<Rightarrow> real ndarray \<Rightarrow> error + real" where
  "infer_datarange x x_ref =
     (case np_amax x_ref of
        Inl e \<Rightarrow> Inl e
      | Inr hi \<Rightarrow>
          (case np_amin x of
             Inl e \<Rightarrow> Inl e
           | Inr lo \<Rightarrow>
               (case np_amin x_ref of
                  Inl e \<Rightarrow> Inl e
                | Inr lo_ref \<Rightarrow> Inr (of_int (py_int (hi - py_min lo lo_ref))))))"

definition the_datarange :: "real ndarray \<Rightarrow> real ndarray \<Rightarrow> real option \<Rightarrow> error + real" where
  "the_datarange x x_ref datarange =
     (if py_not datarange then infer_datarange x x_ref else Inr (the datarange))"

text \<open>
  \<^verbatim>\<open>skimage.metrics.peak_signal_noise_ratio\<close> and \<^verbatim>\<open>skimage.metrics.structural_similarity\<close>
  (with \<^verbatim>\<open>full=True\<close>: the mean and the map) are library routines and parameters of the
  model.
\<close>

type_synonym skimage_psnr = "real ndarray \<Rightarrow> real ndarray \<Rightarrow> real \<Rightarrow> error + fl"

type_synonym skimage_ssim = "real ndarray \<Rightarrow> real ndarray \<Rightarrow> real \<Rightarrow> error + fl \<times> fl ndarray"

text \<open>
  The condition \<^verbatim>\<open>sum(abs(x - x_ref)) < 1e-13\<close> of the \<^verbatim>\<open>if\<close>: the builtin \<^verbatim>\<open>sum\<close>, the
  comparison of each element of its result, and the truth value of the comparison.
\<close>

definition near_identical :: "real ndarray \<Rightarrow> real ndarray \<Rightarrow> error + bool" where
  "near_identical x x_ref =
     (case np_sub x x_ref of
        Inl e \<Rightarrow> Inl e
      | Inr d \<Rightarrow>
          (case builtin_sum (np_abs d) of
             Inl e \<Rightarrow> Inl e
           | Inr s \<Rightarrow> truth_value \<lparr>shape = shape s, data = map (\<lambda>v. v < 1 / 10 ^ 13) (data s)\<rparr>))"

definition psnr :: "skimage_psnr \<Rightarrow> real ndarray \<Rightarrow> real ndarray \<Rightarrow> real option \<Rightarrow> error + fl" where
  "psnr peak_signal_noise_ratio x x_ref datarange =
     (case the_datarange x x_ref datarange of
        Inl e \<Rightarrow> Inl e
      | Inr dr \<Rightarrow>
          (case near_identical x x_ref of
             Inl e \<Rightarrow> Inl e
           | Inr True \<Rightarrow> Inr NaN
           | Inr False \<Rightarrow> peak_signal_noise_ratio x x_ref dr))"

text \<open>The argument \<^verbatim>\<open>mask\<close> is written \<open>msk\<close>; \<^verbatim>\<open>ssim[1][mask > 0].mean()\<close>.\<close>

definition pick_ssim :: "fl \<times> fl ndarray \<Rightarrow> real ndarray option \<Rightarrow> error + fl" where
  "pick_ssim ssim msk =
     (case msk of
        None \<Rightarrow> Inr (fst ssim)
      | Some m \<Rightarrow>
          (case bool_index (snd ssim) \<lparr>shape = shape m, data = map (\<lambda>v. 0 < v) (data m)\<rparr> of
             Inl e \<Rightarrow> Inl e
           | Inr sel \<Rightarrow> Inr (fl_mean sel)))"

definition ssim :: "skimage_ssim \<Rightarrow> real ndarray \<Rightarrow> real ndarray \<Rightarrow> real ndarray option
    \<Rightarrow> real option \<Rightarrow> error + fl" where
  "ssim structural_similarity x x_ref msk datarange =
     (case the_datarange x x_ref datarange of
        Inl e \<Rightarrow> Inl e
      | Inr dr \<Rightarrow>
          (case structural_similarity x_ref x dr of
             Inl e \<Rightarrow> Inl e
           | Inr s \<Rightarrow> pick_ssim s msk))"

subsection \<open>\<^verbatim>\<open>nrmse\<close>, \<^verbatim>\<open>rmse\<close>, \<^verbatim>\<open>mae\<close> and \<^verbatim>\<open>nmae\<close>\<close>

text \<open>
  \<^verbatim>\<open>skimage.metrics.normalized_root_mse\<close> and \<^verbatim>\<open>skimage.metrics.mean_squared_error\<close> are
  library routines and parameters of the model.  \<^verbatim>\<open>mae\<close> subtracts the arrays itself, with
  broadcasting.
\<close>

type_synonym skimage_error = "real ndarray \<Rightarrow> real ndarray \<Rightarrow> error + fl"

definition nrmse :: "skimage_error \<Rightarrow> real ndarray \<Rightarrow> real ndarray \<Rightarrow> error + fl" where
  "nrmse normalized_root_mse x x_ref = normalized_root_mse x x_ref"

definition rmse :: "skimage_error \<Rightarrow> real ndarray \<Rightarrow> real ndarray \<Rightarrow> error + fl" where
  "rmse mean_squared_error x x_ref =
     (case mean_squared_error x x_ref of Inl e \<Rightarrow> Inl e | Inr v \<Rightarrow> Inr (fl_sqrt v))"

definition mae :: "real ndarray \<Rightarrow> real ndarray \<Rightarrow> error + fl" where
  "mae x x_ref =
     (case np_sub x x_ref of Inl e \<Rightarrow> Inl e | Inr d \<Rightarrow> Inr (np_mean (np_abs d)))"

definition nmae :: "real ndarray \<Rightarrow> real ndarray \<Rightarrow> error + fl" where
  "nmae x x_ref =
     (case mae x x_ref of
        Inl e \<Rightarrow> Inl e
      | Inr m \<Rightarrow> Inr (fl_div m (np_mean (np_abs x_ref))))"

subsection \<open>Stand-ins for the library routines\<close>

text \<open>
  Two stand-ins for the library routines, used where a theorem is applied to concrete
  arrays: the first returns the data range it is given, the second returns it as the mean
  and the reference image divided by it as the map.
\<close>

definition sk_psnr0 :: skimage_psnr where
  "sk_psnr0 a b dr = Inr (Fin dr)"

definition sk_ssim0 :: skimage_ssim where
  "sk_ssim0 a b dr = Inr (Fin dr, \<lparr>shape = shape a, data = map (\<lambda>v. Fin (v / dr)) (data a)\<rparr>)"

text \<open>
  Stand-ins that check the shapes first, as the routines of skimage do (ValueError for
  images of different shapes).
\<close>

definition sk_psnr1 :: skimage_psnr where
  "sk_psnr1 a b dr = (if shape a \<noteq> shape b then Inl ValueError else Inr (Fin dr))"

definition sk_ssim1 :: skimage_ssim where
  "sk_ssim1 a b dr =
     (if shape a \<noteq> shape b then Inl ValueError
      else Inr (Fin dr, \<lparr>shape = shape a, data = map (\<lambda>v. Fin (v / dr)) (data a)\<rparr>))"

definition sk_error1 :: skimage_error where
  "sk_error1 a b = (if shape a \<noteq> shape b then Inl ValueError else Inr (Fin 0))"

subsection \<open>Notions of the specification\<close>

text \<open>
  The mean of the map \<open>s\<close> over the positions at which the mask \<open>m\<close> satisfies \<open>sel\<close>
  (NaN when there is no such position).
\<close>

definition masked_mean :: "(real \<Rightarrow> bool) \<Rightarrow> fl ndarray \<Rightarrow> real ndarray \<Rightarrow> fl" where
  "masked_mean sel s m =
     (let vs = map (\<lambda>i. data s ! i) (filter (\<lambda>i. sel (data m ! i)) [0..<length (data s)])
      in fl_div (py_sum vs) (Fin (real (length vs))))"

text \<open>
  The mean, the sum of the products of the mean-centered arrays, the sample standard
  deviation with the denominator \<open>N - 1\<close>, and the quotient of the specification.
\<close>

definition mean_of :: "real list \<Rightarrow> real" where
  "mean_of xs = sum_list xs / real (length xs)"

definition centered_products :: "real list \<Rightarrow> real list \<Rightarrow> real" where
  "centered_products xs ys = (\<Sum>i<length xs. (xs ! i - mean_of xs) * (ys ! i - mean_of ys))"

definition sample_std :: "real list \<Rightarrow> real" where
  "sample_std xs = sqrt ((\<Sum>i<length xs. (xs ! i - mean_of xs)\<^sup>2) / (real (length xs) - 1))"

definition ncc_formula :: "real list \<Rightarrow> real list \<Rightarrow> real" where
  "ncc_formula xs ys =
     centered_products xs ys / (real (length xs) * sample_std xs * sample_std ys)"

text \<open>An array is constant when all its elements are equal.\<close>

definition non_constant :: "real ndarray \<Rightarrow> bool" where
  "non_constant x = (\<exists>a\<in>set (data x). \<exists>b\<in>set (data x). a \<noteq> b)"

text \<open>
  The entropy of a list of counts: minus the sum of \<open>p ln p\<close> over the bins, where \<open>p\<close> is
  the count over the total and a bin with \<open>p = 0\<close> contributes 0.
\<close>

definition entropy_of_counts :: "nat list \<Rightarrow> real" where
  "entropy_of_counts hist =
     - (\<Sum>i<length hist.
          let p = real (hist ! i) / real (sum_list hist) in if p = 0 then 0 else p * ln p)"

text \<open>
  The square histogram with the counts \<open>hist\<close> on its diagonal and 0 elsewhere.
\<close>

definition diagonal :: "nat list \<Rightarrow> nat list list" where
  "diagonal hist =
     map (\<lambda>i. map (\<lambda>j. if i = j then hist ! i else 0) [0..<length hist]) [0..<length hist]"

section \<open>Properties\<close>

subsection \<open>The data range\<close>

lemma fold_min_Min: "fold min vs (v::real) = Min (set (v # vs))"
  using Min.set_eq_fold [of v vs] by simp

lemma fold_max_Max: "fold max vs (v::real) = Max (set (v # vs))"
  using Max.set_eq_fold [of v vs] by simp

lemma np_amax_Max: "data x \<noteq> [] \<Longrightarrow> np_amax x = Inr (Max (set (data x)))"
  by (cases "data x") (simp_all add: np_amax_def fold_max_Max del: set_simps)

lemma np_amin_Min: "data x \<noteq> [] \<Longrightarrow> np_amin x = Inr (Min (set (data x)))"
  by (cases "data x") (simp_all add: np_amin_def fold_min_Min del: set_simps)

lemma py_min_min: "py_min a b = min a b"
  by (simp add: py_min_def min_def)

lemma infer_datarange_eq:
  assumes "data x \<noteq> []" "data x_ref \<noteq> []"
  shows "infer_datarange x x_ref =
    Inr (of_int (py_int (Max (set (data x_ref)) - min (Min (set (data x))) (Min (set (data x_ref))))))"
  using assms by (simp add: infer_datarange_def np_amax_Max np_amin_Min py_min_min)

lemma near_identical_ex: "near_identical (array1 [0, 10]) (array1 [1 / 2, 9 / 2]) = Inr False"
  by (simp add: near_identical_def np_sub_def array1_def broadcast_shape_def broadcast_to_def
      builtin_sum_def np_abs_def truth_value_def)

text \<open>
  C9.  Without a \<^verbatim>\<open>datarange\<close>, \<^verbatim>\<open>psnr\<close> and \<^verbatim>\<open>ssim\<close> of non-empty arrays call the library
  routine with the data range \<open>max(x_ref) - min(min(x), min(x_ref))\<close> truncated to an
  integer: the maximum is the one of the reference alone.  The difference is not negative,
  so the truncation rounds down.
\<close>

theorem inferred_datarange:
  assumes "data x \<noteq> []" and "data x_ref \<noteq> []"
  shows "psnr P x x_ref None =
           (case near_identical x x_ref of
              Inl e \<Rightarrow> Inl e
            | Inr True \<Rightarrow> Inr NaN
            | Inr False \<Rightarrow>
                P x x_ref (of_int (py_int (Max (set (data x_ref))
                                           - min (Min (set (data x))) (Min (set (data x_ref)))))))
       \<and> ssim S x x_ref msk None =
           (case S x_ref x (of_int (py_int (Max (set (data x_ref))
                                           - min (Min (set (data x))) (Min (set (data x_ref)))))) of
              Inl e \<Rightarrow> Inl e
            | Inr s \<Rightarrow> pick_ssim s msk)
       \<and> 0 \<le> Max (set (data x_ref)) - min (Min (set (data x))) (Min (set (data x_ref)))"
proof -
  have "Min (set (data x_ref)) \<le> Max (set (data x_ref))"
    using assms(2) by simp
  then have "0 \<le> Max (set (data x_ref)) - min (Min (set (data x))) (Min (set (data x_ref)))"
    by (simp add: min_def)
  then show ?thesis
    using assms
    by (simp add: psnr_def ssim_def the_datarange_def py_not_def infer_datarange_eq)
qed

text \<open>
  For \<open>x = [0, 10]\<close> and \<open>x_ref = [0.5, 4.5]\<close> the range is \<open>int(4.5 - 0) = 4\<close>; the joint
  range of the two arrays would be 10.
\<close>

theorem inferred_datarange_witness:
  "data (array1 [0, 10 :: real]) \<noteq> [] \<and> data (array1 [1 / 2, 9 / 2 :: real]) \<noteq> []
   \<and> psnr sk_psnr0 (array1 [0, 10]) (array1 [1 / 2, 9 / 2]) None = Inr (Fin 4)
   \<and> ssim sk_ssim0 (array1 [0, 10]) (array1 [1 / 2, 9 / 2]) None None = Inr (Fin 4)"
  using inferred_datarange [of "array1 [0, 10]" "array1 [1 / 2, 9 / 2]" sk_psnr0 sk_ssim0 None]
  by (simp add: near_identical_ex sk_psnr0_def sk_ssim0_def pick_ssim_def py_int_def)
     (simp add: array1_def)


subsection \<open>The selection of \<^verbatim>\<open>ssim\<close>\<close>

lemma chunks_of_one:
  "map (\<lambda>i. take (Suc 0) (drop i xs)) [0..<length xs] = map (\<lambda>v. [v]) xs"
  by (rule nth_equalityI) (simp_all add: take_Suc_conv_app_nth hd_drop_conv_nth take_Suc)

lemma concat_selected_singletons:
  "concat (map snd (filter fst (zip bs (map (\<lambda>v. [v]) as)))) = map snd (filter fst (zip bs as))"
proof (induction bs arbitrary: as)
  case Nil
  then show ?case by simp
next
  case (Cons b bs)
  then show ?case by (cases as) simp_all
qed

lemma selected_by_index:
  "length ms = length as \<Longrightarrow>
   map snd (filter fst (zip (map P ms) as)) = map (\<lambda>i. as ! i) (filter (\<lambda>i. P (ms ! i)) [0..<length as])"
proof (induction ms as rule: list_induct2)
  case Nil
  then show ?case by simp
next
  case (Cons m ms a as)
  have "[0..<length (a # as)] = 0 # map Suc [0..<length as]"
    by (simp add: upt_conv_Cons map_Suc_upt del: upt_Suc)
  then show ?case using Cons.IH
    by (simp add: filter_map comp_def del: upt_Suc)
qed

lemma length_selected_singletons:
  "length (filter fst (zip bs (map (\<lambda>v. [v]) as))) = length (filter fst (zip bs as))"
proof (induction bs arbitrary: as)
  case Nil
  then show ?case by simp
next
  case (Cons b bs)
  then show ?case by (cases as) simp_all
qed

lemma bool_index_same_shape:
  assumes "shape b = shape a" "wf a" "wf b"
  shows "bool_index a b =
    Inr \<lparr>shape = [length (filter fst (zip (data b) (data a)))],
         data = map snd (filter fst (zip (data b) (data a)))\<rparr>"
proof -
  have len: "length (data b) = length (data a)"
    using assms by (simp add: wf_def)
  show ?thesis
    using assms(1) len
    by (simp add: bool_index_def Let_def chunks_of_one concat_selected_singletons
        length_selected_singletons)
qed

lemma pick_ssim_masked:
  assumes "shape m = shape s" "wf s" "wf m"
  shows "pick_ssim (g, s) (Some m) = Inr (masked_mean (\<lambda>v. 0 < v) s m)"
proof -
  let ?b = "\<lparr>shape = shape m, data = map (\<lambda>v. 0 < v) (data m)\<rparr>"
  have len: "length (data m) = length (data s)"
    using assms by (simp add: wf_def)
  have "wf ?b" using assms by (simp add: wf_def)
  then have "bool_index s ?b =
    Inr \<lparr>shape = [length (filter fst (zip (data ?b) (data s)))],
         data = map snd (filter fst (zip (data ?b) (data s)))\<rparr>"
    using assms by (intro bool_index_same_shape) simp_all
  moreover have "map snd (filter fst (zip (map (\<lambda>v. 0 < v) (data m)) (data s)))
    = map (\<lambda>i. data s ! i) (filter (\<lambda>i. 0 < data m ! i) [0..<length (data s)])"
    using len by (rule selected_by_index)
  moreover have "length (filter fst (zip (map (\<lambda>v. 0 < v) (data m)) (data s)))
    = length (map snd (filter fst (zip (map (\<lambda>v. 0 < v) (data m)) (data s))))"
    by simp
  ultimately show ?thesis
    by (simp add: pick_ssim_def masked_mean_def fl_mean_def asize_def Let_def del: length_map)
qed


lemma masked_mean_cong:
  assumes "length (data m) = length (data s)" "\<forall>v\<in>set (data m). P v = Q v"
  shows "masked_mean P s m = masked_mean Q s m"
proof -
  have "filter (\<lambda>i. P (data m ! i)) [0..<length (data s)] = filter (\<lambda>i. Q (data m ! i)) [0..<length (data s)]"
    using assms by (intro filter_cong) auto
  then show ?thesis by (simp add: masked_mean_def)
qed

text \<open>
  C5 (amended).  When the library routine returns the mean \<open>g\<close> and the map \<open>smap\<close>:
  without a mask \<^verbatim>\<open>ssim\<close> returns \<open>g\<close>; with a mask of the shape of the map it returns the
  mean of the map over the positions where the mask is greater than 0, whatever \<open>g\<close> is.
  These are the non-zero positions when no element of the mask is negative.
\<close>

theorem ssim_selection:
  assumes "the_datarange x x_ref datarange = Inr dr" and "S x_ref x dr = Inr (g, smap)"
  shows "ssim S x x_ref None datarange = Inr g
       \<and> (shape m = shape smap \<and> wf smap \<and> wf m \<longrightarrow>
            ssim S x x_ref (Some m) datarange = Inr (masked_mean (\<lambda>v. 0 < v) smap m))
       \<and> (shape m = shape smap \<and> wf smap \<and> wf m \<and> (\<forall>v\<in>set (data m). 0 \<le> v) \<longrightarrow>
            ssim S x x_ref (Some m) datarange = Inr (masked_mean (\<lambda>v. v \<noteq> 0) smap m))"
proof -
  have none: "ssim S x x_ref None datarange = Inr g"
    using assms by (simp add: ssim_def pick_ssim_def)
  have pos: "ssim S x x_ref (Some m) datarange = Inr (masked_mean (\<lambda>v. 0 < v) smap m)"
    if "shape m = shape smap" "wf smap" "wf m"
    using assms that by (simp add: ssim_def pick_ssim_masked)
  have nz: "masked_mean (\<lambda>v. 0 < v) smap m = masked_mean (\<lambda>v. v \<noteq> 0) smap m"
    if "shape m = shape smap" "wf smap" "wf m" "\<forall>v\<in>set (data m). 0 \<le> v"
  proof (rule masked_mean_cong)
    show "length (data m) = length (data smap)" using that by (simp add: wf_def)
    show "\<forall>v\<in>set (data m). (0 < v) = (v \<noteq> 0)" using that(4) by auto
  qed
  show ?thesis using none pos nz by simp
qed

lemma sk_ssim0_ex:
  "sk_ssim0 (array1 [2, 8, 5]) (array1 [0, 10, 3]) 10
     = Inr (Fin 10, array1 [Fin (1 / 5), Fin (4 / 5), Fin (1 / 2)])"
  by (simp add: sk_ssim0_def array1_def)

theorem ssim_selection_witness:
  "the_datarange (array1 [0, 10, 3]) (array1 [2, 8, 5]) (Some 10) = Inr 10
   \<and> sk_ssim0 (array1 [2, 8, 5]) (array1 [0, 10, 3]) 10
       = Inr (Fin 10, array1 [Fin (1 / 5), Fin (4 / 5), Fin (1 / 2)])
   \<and> ssim sk_ssim0 (array1 [0, 10, 3]) (array1 [2, 8, 5]) None (Some 10) = Inr (Fin 10)
   \<and> ssim sk_ssim0 (array1 [0, 10, 3]) (array1 [2, 8, 5]) (Some (array1 [0, 1, 2])) (Some 10)
       = Inr (Fin (13 / 20))
   \<and> masked_mean (\<lambda>v. v \<noteq> 0) (array1 [Fin (1 / 5), Fin (4 / 5), Fin (1 / 2)]) (array1 [0, 1, 2])
       = Fin (13 / 20)"
  using ssim_selection [of "array1 [0, 10, 3]" "array1 [2, 8, 5]" "Some 10" 10 sk_ssim0 "Fin 10"
      "array1 [Fin (1 / 5), Fin (4 / 5), Fin (1 / 2)]" "array1 [0, 1, 2]"]
  by (simp add: sk_ssim0_ex the_datarange_def py_not_def)
     (simp add: array1_def wf_def masked_mean_def py_sum_def upt_rec)

text \<open>
  For the map \<open>[0.2, 0.8]\<close> and the mask \<open>[-1, 1]\<close>, \<^verbatim>\<open>ssim\<close> returns 0.8; the mean over the
  non-zero positions of the mask is 0.5.
\<close>

theorem ssim_nonzero_mask_counterexample:
  "sk_ssim0 (array1 [2, 8]) (array1 [0, 10]) 10 = Inr (Fin 10, array1 [Fin (1 / 5), Fin (4 / 5)])
   \<and> ssim sk_ssim0 (array1 [0, 10]) (array1 [2, 8]) (Some (array1 [- 1, 1])) (Some 10)
       = Inr (Fin (4 / 5))
   \<and> masked_mean (\<lambda>v. v \<noteq> 0) (array1 [Fin (1 / 5), Fin (4 / 5)]) (array1 [- 1, 1]) = Fin (1 / 2)"
  by (simp add: ssim_def the_datarange_def py_not_def sk_ssim0_def pick_ssim_def bool_index_def
      fl_mean_def asize_def array1_def masked_mean_def py_sum_def upt_rec)

subsection \<open>Arrays of different shapes\<close>

lemma shannon_entropy_Inr: "1 \<le> bins \<Longrightarrow> \<exists>h. shannon_entropy x bins = Inr h"
  by (simp add: shannon_entropy_def np_histogram_def)

lemma shannon_entropy_Inl: "shannon_entropy x bins = Inl e \<Longrightarrow> e = ValueError"
  by (auto simp: shannon_entropy_def np_histogram_def split: if_splits)

lemma joint_entropy_mismatch:
  "length (data x) \<noteq> length (data x_ref) \<Longrightarrow> joint_entropy x x_ref bins = Inl ValueError"
  by (simp add: joint_entropy_def np_histogram2d_def)

lemma joint_entropy_Inr:
  "length (data x) = length (data x_ref) \<Longrightarrow> 1 \<le> bins \<Longrightarrow> \<exists>v. joint_entropy x x_ref bins = Inr v"
  by (simp add: joint_entropy_def np_histogram2d_def)

lemma infer_datarange_Inl: "infer_datarange x x_ref = Inl e \<Longrightarrow> e = ValueError"
  by (auto simp: infer_datarange_def np_amax_def np_amin_def split: list.splits)

lemma the_datarange_Inl: "the_datarange x x_ref datarange = Inl e \<Longrightarrow> e = ValueError"
  by (auto simp: the_datarange_def dest: infer_datarange_Inl split: if_splits)

lemma bshape_not_Nil: "bshape s t = Some [] \<Longrightarrow> s = [] \<and> t = []"
  by (cases s; cases t) (auto split: if_splits)

lemma broadcast_shape_Nil: "broadcast_shape s t = Some [] \<Longrightarrow> s = [] \<and> t = []"
  using bshape_not_Nil [of "rev s" "rev t"] by (auto simp: broadcast_shape_def)

lemma near_identical_mismatch:
  assumes "shape x \<noteq> shape x_ref"
  shows "near_identical x x_ref = Inl ValueError \<or> (\<exists>b. near_identical x x_ref = Inr b)"
proof (cases "broadcast_shape (shape x) (shape x_ref)")
  case None
  then show ?thesis by (simp add: near_identical_def np_sub_def)
next
  case (Some t)
  then have "t \<noteq> []" using assms broadcast_shape_Nil by fastforce
  then obtain n rest where t: "t = n # rest" by (cases t) auto
  show ?thesis
    using Some t
    by (auto simp: near_identical_def np_sub_def np_abs_def builtin_sum_def truth_value_def Let_def
        split: list.splits)
qed

lemma psnr_mismatch:
  assumes "shape x \<noteq> shape x_ref"
    and "\<forall>a b dr. shape a \<noteq> shape b \<longrightarrow> P a b dr = Inl ValueError"
  shows "psnr P x x_ref datarange = Inl ValueError \<or> psnr P x x_ref datarange = Inr NaN"
proof (cases "the_datarange x x_ref datarange")
  case (Inl e)
  then show ?thesis using the_datarange_Inl [OF Inl] by (simp add: psnr_def)
next
  case (Inr dr)
  have "P x x_ref dr = Inl ValueError" using assms by simp
  then show ?thesis
    using Inr near_identical_mismatch [OF assms(1)] by (auto simp: psnr_def split: bool.splits)
qed

lemma psnr_no_broadcast:
  assumes "broadcast_shape (shape x) (shape x_ref) = None"
  shows "psnr P x x_ref datarange = Inl ValueError"
proof (cases "the_datarange x x_ref datarange")
  case (Inl e)
  then show ?thesis using the_datarange_Inl [OF Inl] by (simp add: psnr_def)
next
  case (Inr dr)
  then show ?thesis using assms by (simp add: psnr_def near_identical_def np_sub_def)
qed

lemma ssim_mismatch:
  assumes "shape x \<noteq> shape x_ref"
    and "\<forall>a b dr. shape a \<noteq> shape b \<longrightarrow> S a b dr = Inl ValueError"
  shows "ssim S x x_ref msk datarange = Inl ValueError"
proof (cases "the_datarange x x_ref datarange")
  case (Inl e)
  then show ?thesis using the_datarange_Inl [OF Inl] by (simp add: ssim_def)
next
  case (Inr dr)
  have "S x_ref x dr = Inl ValueError" using assms by (metis)
  then show ?thesis using Inr by (simp add: ssim_def)
qed

lemma mae_cases:
  "(broadcast_shape (shape x) (shape x_ref) = None \<longrightarrow>
      mae x x_ref = Inl ValueError \<and> nmae x x_ref = Inl ValueError)
   \<and> (broadcast_shape (shape x) (shape x_ref) \<noteq> None \<longrightarrow>
      (\<exists>v. mae x x_ref = Inr v) \<and> (\<exists>v. nmae x x_ref = Inr v))"
  by (auto simp: mae_def nmae_def np_sub_def)


lemma entropies_mismatch:
  assumes "length (data x) \<noteq> length (data x_ref)"
  shows "joint_entropy x x_ref bins = Inl ValueError
       \<and> mutual_information x x_ref bins = Inl ValueError
       \<and> normalized_mutual_information x x_ref bins = Inl ValueError"
  using joint_entropy_mismatch [OF assms, of bins] shannon_entropy_Inl
  by (auto simp: mutual_information_def normalized_mutual_information_def split: sum.splits)

lemma entropies_Inr:
  assumes "length (data x) = length (data x_ref)" "1 \<le> bins"
  shows "(\<exists>v. joint_entropy x x_ref bins = Inr v)
       \<and> (\<exists>v. mutual_information x x_ref bins = Inr v)
       \<and> (\<exists>v. normalized_mutual_information x x_ref bins = Inr v)"
proof -
  obtain j where "joint_entropy x x_ref bins = Inr j"
    using joint_entropy_Inr [OF assms] by blast
  moreover obtain h1 h2 where "shannon_entropy x bins = Inr h1" "shannon_entropy x_ref bins = Inr h2"
    using shannon_entropy_Inr [OF assms(2)] by blast
  ultimately show ?thesis
    by (simp add: mutual_information_def normalized_mutual_information_def)
qed

text \<open>
  C2 (amended).  For well-formed arrays whose shapes differ, a metric fails where it or the
  library routine it calls checks the shapes: \<^verbatim>\<open>normalized_cross_correlation\<close> raises
  ValueError, and so do \<^verbatim>\<open>ssim\<close>, \<^verbatim>\<open>rmse\<close> and \<^verbatim>\<open>nrmse\<close> when their library routines
  raise it for images of different shapes.  \<^verbatim>\<open>psnr\<close> evaluates its guard on the broadcast
  difference before the library routine is called: it raises ValueError or returns NaN.
  \<^verbatim>\<open>joint_entropy\<close>, \<^verbatim>\<open>mutual_information\<close> and \<^verbatim>\<open>normalized_mutual_information\<close> flatten
  the arrays: they raise ValueError when the element counts differ and return a value when
  the counts agree and there is at least one bin.  \<^verbatim>\<open>mae\<close> and \<^verbatim>\<open>nmae\<close> broadcast: they
  raise ValueError when the shapes cannot be broadcast together (then \<^verbatim>\<open>psnr\<close> raises it
  too) and return a value when they can.
\<close>

theorem shape_mismatch_errors:
  assumes "wf x" and "wf x_ref"
    and "\<forall>a b dr. shape a \<noteq> shape b \<longrightarrow> P a b dr = Inl ValueError"
    and "\<forall>a b dr. shape a \<noteq> shape b \<longrightarrow> S a b dr = Inl ValueError"
    and "\<forall>a b. shape a \<noteq> shape b \<longrightarrow> M a b = Inl ValueError"
    and "\<forall>a b. shape a \<noteq> shape b \<longrightarrow> N a b = Inl ValueError"
  shows "(shape x \<noteq> shape x_ref \<longrightarrow>
            normalized_cross_correlation x x_ref = Inl ValueError
          \<and> ssim S x x_ref msk datarange = Inl ValueError
          \<and> rmse M x x_ref = Inl ValueError
          \<and> nrmse N x x_ref = Inl ValueError
          \<and> (psnr P x x_ref datarange = Inl ValueError \<or> psnr P x x_ref datarange = Inr NaN))
       \<and> (asize x \<noteq> asize x_ref \<longrightarrow>
            joint_entropy x x_ref bins = Inl ValueError
          \<and> mutual_information x x_ref bins = Inl ValueError
          \<and> normalized_mutual_information x x_ref bins = Inl ValueError)
       \<and> (asize x = asize x_ref \<and> 1 \<le> bins \<longrightarrow>
            (\<exists>v. joint_entropy x x_ref bins = Inr v)
          \<and> (\<exists>v. mutual_information x x_ref bins = Inr v)
          \<and> (\<exists>v. normalized_mutual_information x x_ref bins = Inr v))
       \<and> (broadcast_shape (shape x) (shape x_ref) = None \<longrightarrow>
            mae x x_ref = Inl ValueError
          \<and> nmae x x_ref = Inl ValueError
          \<and> psnr P x x_ref datarange = Inl ValueError)
       \<and> (broadcast_shape (shape x) (shape x_ref) \<noteq> None \<longrightarrow>
            (\<exists>v. mae x x_ref = Inr v) \<and> (\<exists>v. nmae x x_ref = Inr v))"
proof -
  have len: "length (data x) = asize x" "length (data x_ref) = asize x_ref"
    using assms(1,2) by (simp_all add: wf_def asize_def)
  have checked: "normalized_cross_correlation x x_ref = Inl ValueError
          \<and> ssim S x x_ref msk datarange = Inl ValueError
          \<and> rmse M x x_ref = Inl ValueError
          \<and> nrmse N x x_ref = Inl ValueError
          \<and> (psnr P x x_ref datarange = Inl ValueError \<or> psnr P x x_ref datarange = Inr NaN)"
    if ne: "shape x \<noteq> shape x_ref"
  proof -
    have "normalized_cross_correlation x x_ref = Inl ValueError"
      using ne by (simp add: normalized_cross_correlation_def)
    moreover have "ssim S x x_ref msk datarange = Inl ValueError"
      using ne assms(4) by (rule ssim_mismatch)
    moreover have "rmse M x x_ref = Inl ValueError" "nrmse N x x_ref = Inl ValueError"
      using ne assms(5,6) by (simp_all add: rmse_def nrmse_def)
    moreover have "psnr P x x_ref datarange = Inl ValueError \<or> psnr P x x_ref datarange = Inr NaN"
      using ne assms(3) by (rule psnr_mismatch)
    ultimately show ?thesis by blast
  qed
  have flat: "joint_entropy x x_ref bins = Inl ValueError
          \<and> mutual_information x x_ref bins = Inl ValueError
          \<and> normalized_mutual_information x x_ref bins = Inl ValueError"
    if "asize x \<noteq> asize x_ref"
    using that len by (intro entropies_mismatch) simp
  have flat_ok: "(\<exists>v. joint_entropy x x_ref bins = Inr v)
          \<and> (\<exists>v. mutual_information x x_ref bins = Inr v)
          \<and> (\<exists>v. normalized_mutual_information x x_ref bins = Inr v)"
    if "asize x = asize x_ref" "1 \<le> bins"
    using that len by (intro entropies_Inr) simp_all
  have nb: "psnr P x x_ref datarange = Inl ValueError"
    if "broadcast_shape (shape x) (shape x_ref) = None"
    using that by (rule psnr_no_broadcast)
  show ?thesis
    using checked flat flat_ok nb mae_cases [of x x_ref] by blast
qed


lemma np_sub_broadcast_1d:
  "np_sub (array1 [5]) (array1 [5, 5, 5]) = Inr (array1 [0, 0, 0])"
  by (simp add: np_sub_def array1_def broadcast_shape_def broadcast_to_def)

lemma np_sub_broadcast_2d:
  "np_sub (array2 1 2 [0, 1]) (array2 2 1 [0, 1]) = Inr (array2 2 2 [0, 1, - 1, 0])"
  by (simp add: np_sub_def array2_def broadcast_shape_def broadcast_to_def upt_rec
      numeral_2_eq_2)

lemma mae_broadcast_1d:
  "mae (array1 [5]) (array1 [5, 5, 5]) = Inr (Fin 0)"
  "nmae (array1 [5]) (array1 [5, 5, 5]) = Inr (Fin 0)"
  unfolding nmae_def mae_def np_sub_broadcast_1d
  by (simp_all add: np_mean_def np_abs_def asize_def array1_def)

lemma mae_broadcast_2d:
  "mae (array2 1 2 [0, 1]) (array2 2 1 [0, 1]) = Inr (Fin (1 / 2))"
  unfolding mae_def np_sub_broadcast_2d
  by (simp add: np_mean_def np_abs_def asize_def array2_def)

lemma near_identical_broadcast_1d:
  "near_identical (array1 [5]) (array1 [5, 5, 5]) = Inr True"
  unfolding near_identical_def np_sub_broadcast_1d
  by (simp add: builtin_sum_def np_abs_def truth_value_def array1_def upt_rec)

lemma infer_datarange_broadcast_1d:
  "infer_datarange (array1 [5]) (array1 [5, 5, 5]) = Inr 0"
  by (simp add: infer_datarange_def np_amax_def np_amin_def array1_def py_min_def py_int_def)

lemma psnr_broadcast_1d:
  "psnr P (array1 [5]) (array1 [5, 5, 5]) (Some 3) = Inr NaN"
  "psnr P (array1 [5]) (array1 [5, 5, 5]) None = Inr NaN"
  unfolding psnr_def near_identical_broadcast_1d the_datarange_def infer_datarange_broadcast_1d
  by (simp_all add: py_not_def)

lemma joint_entropy_flat_2d:
  "joint_entropy (array2 1 2 [0, 1]) (array2 2 1 [0, 1]) 2 = Inr (Fin (ln 2))"
proof -
  have "ln (1 / 2 :: real) = - ln 2"
    by (simp add: ln_div)
  then show ?thesis
    by (simp add: joint_entropy_def np_histogram2d_def array2_def outer_edges_def
        bin_index_def prob_entropy_def py_sum_def upt_rec)
qed

text \<open>
  The arrays \<open>[[0, 1]]\<close> and \<open>[[0], [1]]\<close> have different shapes: \<^verbatim>\<open>joint_entropy\<close> returns
  \<open>ln 2\<close> for them, since it compares the flattened arrays, and \<^verbatim>\<open>mae\<close> returns \<open>1 / 2\<close>,
  the mean over the broadcast shape \<open>(2, 2)\<close>.  For \<open>[5]\<close> and \<open>[5, 5, 5]\<close>, \<^verbatim>\<open>mae\<close> and
  \<^verbatim>\<open>nmae\<close> return 0 and \<^verbatim>\<open>psnr\<close> returns NaN, with a library routine that checks the shapes.
\<close>

theorem shape_mismatch_counterexample:
  "wf (array2 1 2 [0, 1 :: real]) \<and> wf (array2 2 1 [0, 1 :: real])
   \<and> shape (array2 1 2 [0, 1 :: real]) \<noteq> shape (array2 2 1 [0, 1 :: real])
   \<and> joint_entropy (array2 1 2 [0, 1]) (array2 2 1 [0, 1]) 2 = Inr (Fin (ln 2))
   \<and> mae (array2 1 2 [0, 1]) (array2 2 1 [0, 1]) = Inr (Fin (1 / 2))
   \<and> wf (array1 [5 :: real]) \<and> wf (array1 [5, 5, 5 :: real])
   \<and> shape (array1 [5 :: real]) \<noteq> shape (array1 [5, 5, 5 :: real])
   \<and> mae (array1 [5]) (array1 [5, 5, 5]) = Inr (Fin 0)
   \<and> nmae (array1 [5]) (array1 [5, 5, 5]) = Inr (Fin 0)
   \<and> psnr sk_psnr1 (array1 [5]) (array1 [5, 5, 5]) (Some 3) = Inr NaN
   \<and> psnr sk_psnr1 (array1 [5]) (array1 [5, 5, 5]) None = Inr NaN"
proof -
  have "wf (array2 1 2 [0, 1 :: real])" "wf (array2 2 1 [0, 1 :: real])"
    "wf (array1 [5 :: real])" "wf (array1 [5, 5, 5 :: real])"
    "shape (array2 1 2 [0, 1 :: real]) \<noteq> shape (array2 2 1 [0, 1 :: real])"
    "shape (array1 [5 :: real]) \<noteq> shape (array1 [5, 5, 5 :: real])"
    by (simp_all add: wf_def array1_def array2_def)
  then show ?thesis
    using joint_entropy_flat_2d mae_broadcast_2d mae_broadcast_1d psnr_broadcast_1d [of sk_psnr1]
    by (intro conjI)
qed

lemma stand_ins_check_shapes:
  "\<forall>a b dr. shape a \<noteq> shape b \<longrightarrow> sk_psnr1 a b dr = Inl ValueError"
  "\<forall>a b dr. shape a \<noteq> shape b \<longrightarrow> sk_ssim1 a b dr = Inl ValueError"
  "\<forall>a b. shape a \<noteq> shape b \<longrightarrow> sk_error1 a b = Inl ValueError"
  by (simp_all add: sk_psnr1_def sk_ssim1_def sk_error1_def)

text \<open>
  Three pairs of arrays: \<open>[5]\<close> and \<open>[5, 5, 5]\<close> (different shapes and counts, broadcast
  to \<open>(3)\<close>), \<open>[0, 1]\<close> and \<open>[0, 1, 2]\<close> (no common shape), \<open>[[0, 1]]\<close> and \<open>[[0], [1]]\<close>
  (different shapes, equal counts).
\<close>

theorem shape_mismatch_errors_witness:
  "wf (array1 [5 :: real]) \<and> wf (array1 [5, 5, 5 :: real])
   \<and> shape (array1 [5 :: real]) \<noteq> shape (array1 [5, 5, 5 :: real])
   \<and> asize (array1 [5 :: real]) \<noteq> asize (array1 [5, 5, 5 :: real])
   \<and> broadcast_shape (shape (array1 [5 :: real])) (shape (array1 [5, 5, 5 :: real])) = Some [3]
   \<and> normalized_cross_correlation (array1 [5]) (array1 [5, 5, 5]) = Inl ValueError
   \<and> ssim sk_ssim1 (array1 [5]) (array1 [5, 5, 5]) None (Some 3) = Inl ValueError
   \<and> rmse sk_error1 (array1 [5]) (array1 [5, 5, 5]) = Inl ValueError
   \<and> nrmse sk_error1 (array1 [5]) (array1 [5, 5, 5]) = Inl ValueError
   \<and> psnr sk_psnr1 (array1 [5]) (array1 [5, 5, 5]) (Some 3) = Inr NaN
   \<and> joint_entropy (array1 [5]) (array1 [5, 5, 5]) 2 = Inl ValueError
   \<and> mutual_information (array1 [5]) (array1 [5, 5, 5]) 2 = Inl ValueError
   \<and> normalized_mutual_information (array1 [5]) (array1 [5, 5, 5]) 2 = Inl ValueError
   \<and> mae (array1 [5]) (array1 [5, 5, 5]) = Inr (Fin 0)
   \<and> nmae (array1 [5]) (array1 [5, 5, 5]) = Inr (Fin 0)
   \<and> wf (array1 [0, 1 :: real]) \<and> wf (array1 [0, 1, 2 :: real])
   \<and> broadcast_shape (shape (array1 [0, 1 :: real])) (shape (array1 [0, 1, 2 :: real])) = None
   \<and> mae (array1 [0, 1]) (array1 [0, 1, 2]) = Inl ValueError
   \<and> nmae (array1 [0, 1]) (array1 [0, 1, 2]) = Inl ValueError
   \<and> psnr sk_psnr1 (array1 [0, 1]) (array1 [0, 1, 2]) (Some 3) = Inl ValueError
   \<and> wf (array2 1 2 [0, 1 :: real]) \<and> wf (array2 2 1 [0, 1 :: real])
   \<and> asize (array2 1 2 [0, 1 :: real]) = asize (array2 2 1 [0, 1 :: real]) \<and> (1 :: int) \<le> 2
   \<and> (\<exists>v. joint_entropy (array2 1 2 [0, 1]) (array2 2 1 [0, 1]) 2 = Inr v)
   \<and> (\<exists>v. mutual_information (array2 1 2 [0, 1]) (array2 2 1 [0, 1]) 2 = Inr v)
   \<and> (\<exists>v. normalized_mutual_information (array2 1 2 [0, 1]) (array2 2 1 [0, 1]) 2 = Inr v)"
proof -
  have wfs: "wf (array1 [5 :: real])" "wf (array1 [5, 5, 5 :: real])"
    "wf (array1 [0, 1 :: real])" "wf (array1 [0, 1, 2 :: real])"
    "wf (array2 1 2 [0, 1 :: real])" "wf (array2 2 1 [0, 1 :: real])"
    by (simp_all add: wf_def array1_def array2_def)
  have a: "shape (array1 [5 :: real]) \<noteq> shape (array1 [5, 5, 5 :: real])"
    "asize (array1 [5 :: real]) \<noteq> asize (array1 [5, 5, 5 :: real])"
    "broadcast_shape (shape (array1 [5 :: real])) (shape (array1 [5, 5, 5 :: real])) = Some [3]"
    by (simp_all add: array1_def asize_def broadcast_shape_def)
  have b: "broadcast_shape (shape (array1 [0, 1 :: real])) (shape (array1 [0, 1, 2 :: real])) = None"
    by (simp add: array1_def broadcast_shape_def)
  have c: "asize (array2 1 2 [0, 1 :: real]) = asize (array2 2 1 [0, 1 :: real])" "(1 :: int) \<le> 2"
    by (simp_all add: array2_def asize_def)
  note t = shape_mismatch_errors [OF _ _ stand_ins_check_shapes(1) stand_ins_check_shapes(2)
      stand_ins_check_shapes(3) stand_ins_check_shapes(3)]
  note ta = t [OF wfs(1) wfs(2), where msk = None and datarange = "Some 3" and bins = 2]
  note tb = t [OF wfs(3) wfs(4), where msk = None and datarange = "Some 3" and bins = 2]
  note tc = t [OF wfs(5) wfs(6), where msk = None and datarange = "Some 3" and bins = 2]
  have pa: "psnr sk_psnr1 (array1 [5]) (array1 [5, 5, 5]) (Some 3) = Inr NaN"
    using ta a by (simp add: psnr_broadcast_1d)
  have ma: "mae (array1 [5]) (array1 [5, 5, 5]) = Inr (Fin 0)"
    "nmae (array1 [5]) (array1 [5, 5, 5]) = Inr (Fin 0)"
    by (rule mae_broadcast_1d)+
  show ?thesis
    using wfs a b c ta tb tc pa ma by simp
qed

subsection \<open>A joint entropy of zero\<close>

lemma fl_div_zero_not_finite: "\<not> is_finite (fl_div v (Fin 0))"
  by (cases v) (simp_all add: inf_of_sign_def)

lemma joint_entropy_InrD:
  assumes "joint_entropy x x_ref bins = Inr j"
  shows "1 \<le> bins" and "length (data x) = length (data x_ref)"
  using assms by (auto simp: joint_entropy_def np_histogram2d_def split: if_splits)

text \<open>
  C8.  When \<^verbatim>\<open>joint_entropy\<close> returns exactly zero, \<^verbatim>\<open>normalized_mutual_information\<close>
  raises nothing and returns a value that is not finite.
\<close>

theorem nmi_zero_joint_entropy:
  assumes "joint_entropy x x_ref bins = Inr (Fin 0)"
  shows "\<exists>v. normalized_mutual_information x x_ref bins = Inr v \<and> \<not> is_finite v"
proof -
  have "1 \<le> bins" using assms by (rule joint_entropy_InrD)
  then obtain h1 h2 where "shannon_entropy x bins = Inr h1" "shannon_entropy x_ref bins = Inr h2"
    using shannon_entropy_Inr by blast
  then show ?thesis
    using assms by (simp add: normalized_mutual_information_def fl_div_zero_not_finite)
qed

lemma joint_entropy_const_ex: "joint_entropy (array1 [5, 5]) (array1 [5, 5]) 2 = Inr (Fin 0)"
  by (simp add: joint_entropy_def np_histogram2d_def array1_def outer_edges_def bin_index_def
      prob_entropy_def py_sum_def upt_rec)

text \<open>The constant array \<open>[5, 5]\<close> against itself, with two bins.\<close>

theorem nmi_zero_joint_entropy_witness:
  "joint_entropy (array1 [5, 5]) (array1 [5, 5]) 2 = Inr (Fin 0)
   \<and> (\<exists>v. normalized_mutual_information (array1 [5, 5]) (array1 [5, 5]) 2 = Inr v \<and> \<not> is_finite v)"
  using nmi_zero_joint_entropy [of "array1 [5, 5]" "array1 [5, 5]" 2]
  by (simp add: joint_entropy_const_ex)

lemma shannon_entropy_const_ex: "shannon_entropy (array1 [5, 5]) 2 = Inr (Fin 0)"
  by (simp add: shannon_entropy_def np_histogram_def array1_def outer_edges_def bin_index_def
      prob_entropy_def py_sum_def upt_rec)

lemma nmi_const_ex: "normalized_mutual_information (array1 [5, 5]) (array1 [5, 5]) 2 = Inr NaN"
  by (simp add: normalized_mutual_information_def joint_entropy_const_ex shannon_entropy_const_ex
      inf_of_sign_def)

subsection \<open>\<^verbatim>\<open>psnr\<close> of identical arrays\<close>

lemma near_identical_2d:
  "near_identical (array2 2 2 [1, 2, 3, 4]) (array2 2 2 [1, 2, 3, 4]) = Inl ValueError"
  by (simp add: near_identical_def np_sub_def array2_def broadcast_shape_def broadcast_to_def
      builtin_sum_def np_abs_def truth_value_def upt_rec)

lemma infer_datarange_2d:
  "infer_datarange (array2 2 2 [1, 2, 3, 4]) (array2 2 2 [1, 2, 3, 4]) = Inr 3"
  by (simp add: infer_datarange_def np_amax_def np_amin_def array2_def py_min_def py_int_def)

lemma wf_2d: "wf (array2 2 2 [1, 2, 3, 4 :: real])"
  by (simp add: wf_def array2_def)

text \<open>
  C4.  For the slice \<open>[[1, 2], [3, 4]]\<close> against itself the builtin \<^verbatim>\<open>sum\<close> returns the
  array \<open>[0, 0]\<close> of the column sums, the comparison with \<open>1e-13\<close> an array of two booleans,
  and the \<^verbatim>\<open>if\<close> raises ValueError: \<^verbatim>\<open>psnr\<close> does not return NaN.
\<close>

theorem psnr_identical_slices_raise:
  "wf (array2 2 2 [1, 2, 3, 4 :: real])
   \<and> psnr P (array2 2 2 [1, 2, 3, 4]) (array2 2 2 [1, 2, 3, 4]) None = Inl ValueError
   \<and> psnr P (array2 2 2 [1, 2, 3, 4]) (array2 2 2 [1, 2, 3, 4]) (Some 3) = Inl ValueError"
  by (simp add: psnr_def near_identical_2d the_datarange_def py_not_def infer_datarange_2d wf_2d)

text \<open>
  On one-dimensional arrays the builtin \<^verbatim>\<open>sum\<close> returns a scalar and the guard works.
\<close>

lemma concat_chunks_of_one:
  "concat (map (\<lambda>i. take (Suc 0) (drop i xs)) [0..<length xs]) = xs"
proof -
  have "map (\<lambda>i. take (Suc 0) (drop i xs)) [0..<length xs] = map (\<lambda>v. [v]) xs"
    by (rule nth_equalityI) (simp_all add: take_Suc_conv_app_nth hd_drop_conv_nth take_Suc)
  then show ?thesis by (simp add: concat_map_singleton)
qed

lemma bcast_1d: "bcast [length d] [length d] d = d"
  by (simp add: concat_chunks_of_one)

lemma np_sub_1d:
  assumes "length xs = length ys"
  shows "np_sub (array1 xs) (array1 ys) = Inr (array1 (map2 (-) xs ys))"
proof -
  have "bcast [length ys] [length ys] ys = ys" "bcast [length xs] [length xs] xs = xs"
    by (rule bcast_1d)+
  then show ?thesis
    using assms by (simp add: np_sub_def array1_def broadcast_shape_def broadcast_to_def)
qed

lemma builtin_sum_1d:
  assumes "zs \<noteq> []"
  shows "builtin_sum (array1 zs) = Inr \<lparr>shape = [], data = [sum_list zs]\<rparr>"
proof -
  have "map (\<lambda>i. zs ! i) [0..<length zs] = zs"
    by (rule map_nth)
  then show ?thesis
    using assms by (simp add: builtin_sum_def array1_def)
qed

lemma near_identical_1d:
  assumes "length xs = length ys" "xs \<noteq> []"
  shows "near_identical (array1 xs) (array1 ys)
           = Inr (sum_list (map (\<lambda>(a, b). \<bar>a - b\<bar>) (zip xs ys)) < 1 / 10 ^ 13)"
proof -
  have abs: "np_abs (array1 (map2 (-) xs ys)) = array1 (map (\<lambda>(a, b). \<bar>a - b\<bar>) (zip xs ys))"
    by (simp add: np_abs_def array1_def split_def comp_def)
  have "map (\<lambda>(a, b). \<bar>a - b\<bar>) (zip xs ys) \<noteq> []"
    using assms by (cases xs; cases ys) simp_all
  then have "builtin_sum (array1 (map (\<lambda>(a, b). \<bar>a - b\<bar>) (zip xs ys)))
      = Inr \<lparr>shape = [], data = [sum_list (map (\<lambda>(a, b). \<bar>a - b\<bar>) (zip xs ys))]\<rparr>"
    by (rule builtin_sum_1d)
  then show ?thesis
    using np_sub_1d [OF assms(1)] abs
    by (simp add: near_identical_def truth_value_def)
qed

lemma the_datarange_Inr:
  assumes "data x \<noteq> []" "data x_ref \<noteq> []"
  shows "\<exists>dr. the_datarange x x_ref datarange = Inr dr"
  using infer_datarange_eq [OF assms] by (simp add: the_datarange_def)

lemma psnr_1d:
  assumes "length xs = length ys" "xs \<noteq> []"
    and "sum_list (map (\<lambda>(a, b). \<bar>a - b\<bar>) (zip xs ys)) < 1 / 10 ^ 13"
  shows "psnr P (array1 xs) (array1 ys) datarange = Inr NaN"
proof -
  have "data (array1 xs) \<noteq> []" "data (array1 ys) \<noteq> []"
    using assms by (auto simp: array1_def)
  then obtain dr where "the_datarange (array1 xs) (array1 ys) datarange = Inr dr"
    using the_datarange_Inr by blast
  then show ?thesis
    using assms near_identical_1d [OF assms(1,2)] by (simp add: psnr_def)
qed

subsection \<open>The normalized cross correlation\<close>

lemma foldl_fl_add_Fin: "foldl fl_add (Fin a) (map Fin rs) = Fin (a + sum_list rs)"
  by (induction rs arbitrary: a) (simp_all add: add.assoc)

lemma py_sum_Fin: "py_sum (map Fin rs) = Fin (sum_list rs)"
  by (simp add: py_sum_def foldl_fl_add_Fin)

lemma np_mean_Fin: "0 < asize x \<Longrightarrow> np_mean x = Fin (sum_list (data x) / real (asize x))"
  by (simp add: np_mean_def)

lemma sum_list_zip_nth:
  "length xs = length ys \<Longrightarrow> sum_list (map (\<lambda>(a, b). f a b) (zip xs ys)) = (\<Sum>i<length xs. f (xs ! i) (ys ! i))"
  by (simp add: sum_list_sum_nth atLeast0LessThan)

lemma sum_list_map_nth: "sum_list (map f xs) = (\<Sum>i<length xs. f (xs ! i))"
  by (simp add: sum_list_sum_nth atLeast0LessThan)

lemma np_std_Fin:
  assumes "wf x" "2 \<le> asize x"
  shows "np_std 1 x = Fin (sample_std (data x))"
proof -
  have len: "length (data x) = asize x" using assms by (simp add: wf_def asize_def)
  have mean: "np_mean x = Fin (mean_of (data x))"
    using assms len by (simp add: np_mean_Fin mean_of_def)
  have dev: "map (\<lambda>v. fl_mul v v) (map (\<lambda>v. fl_sub (Fin v) (Fin m)) xs) = map Fin (map (\<lambda>v. (v - m)\<^sup>2) xs)" for m xs
    by (simp add: fl_sub_def power2_eq_square)
  have nonneg: "0 \<le> (\<Sum>i<length (data x). (data x ! i - mean_of (data x))\<^sup>2) / (real (asize x) - 1)"
    using assms(2) by (intro divide_nonneg_nonneg sum_nonneg) simp_all
  have "real (asize x - 1) = real (asize x) - 1" "real (asize x - 1) \<noteq> 0"
    using assms(2) by simp_all
  then show ?thesis
    using nonneg len
    by (simp add: np_std_def Let_def mean dev py_sum_Fin sum_list_map_nth sample_std_def
        del: map_map)
qed

lemma ncc_value:
  assumes "wf x" "wf x_ref" "shape x = shape x_ref" "2 \<le> asize x"
  shows "normalized_cross_correlation x x_ref =
    Inr (fl_div (Fin (centered_products (data x) (data x_ref)))
           (Fin (real (asize x) * sample_std (data x) * sample_std (data x_ref))))"
proof -
  have len: "length (data x) = asize x" "length (data x_ref) = asize x" "asize x_ref = asize x"
    using assms by (simp_all add: wf_def asize_def)
  have mean: "np_mean x = Fin (mean_of (data x))" "np_mean x_ref = Fin (mean_of (data x_ref))"
    using assms len by (simp_all add: np_mean_Fin mean_of_def)
  have prod: "map2 fl_mul (map (\<lambda>v. fl_sub (Fin v) (Fin a)) xs) (map (\<lambda>v. fl_sub (Fin v) (Fin b)) ys)
      = map Fin (map (\<lambda>(u, v). (u - a) * (v - b)) (zip xs ys))" for a b xs ys
    by (simp add: fl_sub_def zip_map_map split_def)
  have "sum_list (map (\<lambda>(u, v). (u - mean_of (data x)) * (v - mean_of (data x_ref))) (zip (data x) (data x_ref)))
      = centered_products (data x) (data x_ref)"
    using len by (simp add: sum_list_zip_nth centered_products_def)
  then show ?thesis
    using assms np_std_Fin [of x] np_std_Fin [of x_ref] len
    by (simp add: normalized_cross_correlation_def Let_def mean prod py_sum_Fin del: map_map)
qed


lemma fl_div_NaN_right: "fl_div v NaN = NaN"
  by (cases v) simp_all

lemma fl_mul_NaN_right: "fl_mul v NaN = NaN"
  by (cases v) simp_all

lemma np_std_small:
  assumes "wf x" "asize x < 2"
  shows "np_std 1 x = NaN"
proof -
  have len: "length (data x) = asize x" using assms by (simp add: wf_def asize_def)
  consider "data x = []" "asize x = 0" | a where "data x = [a]" "asize x = 1"
    using len assms(2) by (cases "data x"; cases "tl (data x)") auto
  then show ?thesis
  proof cases
    case 1
    then show ?thesis by (simp add: np_std_def np_mean_def py_sum_def inf_of_sign_def)
  next
    case 2
    then show ?thesis by (simp add: np_std_def np_mean_def py_sum_def inf_of_sign_def fl_sub_def)
  qed
qed

lemma ncc_small:
  assumes "wf x" "shape x = shape x_ref" "asize x < 2"
  shows "normalized_cross_correlation x x_ref = Inr NaN"
  using assms np_std_small [of x]
  by (simp add: normalized_cross_correlation_def Let_def fl_mul_NaN_right fl_div_NaN_right)

lemma sample_std_zero:
  assumes "2 \<le> length xs" "sample_std xs = 0" "i < length xs"
  shows "xs ! i = mean_of xs"
proof -
  have "(\<Sum>i<length xs. (xs ! i - mean_of xs)\<^sup>2) / (real (length xs) - 1) = 0"
    using assms(2) by (simp add: sample_std_def)
  then have "(\<Sum>i<length xs. (xs ! i - mean_of xs)\<^sup>2) = 0"
    using assms(1) by simp
  then have "\<forall>i\<in>{..<length xs}. (xs ! i - mean_of xs)\<^sup>2 = 0"
    by (subst (asm) sum_nonneg_eq_0_iff) simp_all
  then show ?thesis using assms(3) by simp
qed

lemma centered_products_zero:
  assumes "2 \<le> length xs" "length xs = length ys" "sample_std xs = 0 \<or> sample_std ys = 0"
  shows "centered_products xs ys = 0"
proof -
  have "(xs ! i - mean_of xs) * (ys ! i - mean_of ys) = 0" if "i < length xs" for i
    using assms sample_std_zero [of xs i] sample_std_zero [of ys i] that by auto
  then show ?thesis
    unfolding centered_products_def by (intro sum.neutral) simp
qed

text \<open>
  C1.  For well-formed arrays of one shape, \<^verbatim>\<open>normalized_cross_correlation\<close> returns the sum
  of the products of the mean-centered arrays over the product of the element count and
  the two sample standard deviations (denominator \<open>N - 1\<close>).  Where that quotient has no
  value, for fewer than two elements or a standard deviation of zero, it returns NaN.
\<close>

theorem ncc_is_formula:
  assumes "wf x" "wf x_ref" "shape x = shape x_ref"
  shows "normalized_cross_correlation x x_ref =
    Inr (if asize x < 2 \<or> sample_std (data x) = 0 \<or> sample_std (data x_ref) = 0 then NaN
         else Fin (ncc_formula (data x) (data x_ref)))"
proof (cases "asize x < 2")
  case True
  then show ?thesis using assms by (simp add: ncc_small)
next
  case False
  then have n: "2 \<le> asize x" by simp
  have len: "length (data x) = asize x" "length (data x_ref) = asize x"
    using assms by (simp_all add: wf_def asize_def)
  show ?thesis
  proof (cases "sample_std (data x) = 0 \<or> sample_std (data x_ref) = 0")
    case True
    then have "centered_products (data x) (data x_ref) = 0"
      using n len by (intro centered_products_zero) simp_all
    then show ?thesis
      using True ncc_value [OF assms n] by (auto simp: inf_of_sign_def)
  next
    case False
    then show ?thesis
      using n len ncc_value [OF assms n] by (simp add: ncc_formula_def)
  qed
qed


text \<open>For \<open>x = [0, 1, 2]\<close> and \<open>x_ref = [1, 3, 2]\<close> the value is \<open>1 / (3 * 1 * 1)\<close>.\<close>

theorem ncc_is_formula_witness:
  "wf (array1 [0, 1, 2 :: real]) \<and> wf (array1 [1, 3, 2 :: real])
   \<and> shape (array1 [0, 1, 2 :: real]) = shape (array1 [1, 3, 2 :: real])
   \<and> ncc_formula [0, 1, 2] [1, 3, 2] = 1 / 3
   \<and> normalized_cross_correlation (array1 [0, 1, 2]) (array1 [1, 3, 2]) = Inr (Fin (1 / 3))"
proof -
  have m: "mean_of [0, 1, 2] = 1" "mean_of [1, 3, 2] = 2"
    by (simp_all add: mean_of_def)
  have s: "sample_std [0, 1, 2] = 1" "sample_std [1, 3, 2] = 1"
    by (simp_all add: sample_std_def m lessThan_Suc)
  have c: "centered_products [0, 1, 2] [1, 3, 2] = 1"
    by (simp add: centered_products_def m lessThan_Suc)
  have f: "ncc_formula [0, 1, 2] [1, 3, 2] = 1 / 3"
    by (simp add: ncc_formula_def s c)
  show ?thesis
    using ncc_is_formula [of "array1 [0, 1, 2]" "array1 [1, 3, 2]"] f
    by (simp add: array1_def wf_def asize_def s)
qed

lemma non_constant_length:
  assumes "non_constant x"
  shows "2 \<le> length (data x)"
proof (rule ccontr)
  assume "\<not> 2 \<le> length (data x)"
  then consider "data x = []" | a where "data x = [a]"
    by (cases "data x"; cases "tl (data x)") auto
  then show False using assms by cases (auto simp: non_constant_def)
qed

lemma non_constant_spread:
  assumes "non_constant x"
  shows "0 < (\<Sum>i<length (data x). (data x ! i - mean_of (data x))\<^sup>2)"
proof (rule ccontr)
  let ?xs = "data x"
  assume "\<not> 0 < (\<Sum>i<length ?xs. (?xs ! i - mean_of ?xs)\<^sup>2)"
  moreover have "0 \<le> (\<Sum>i<length ?xs. (?xs ! i - mean_of ?xs)\<^sup>2)"
    by (intro sum_nonneg) simp
  ultimately have "(\<Sum>i<length ?xs. (?xs ! i - mean_of ?xs)\<^sup>2) = 0"
    by simp
  then have "\<forall>i\<in>{..<length ?xs}. (?xs ! i - mean_of ?xs)\<^sup>2 = 0"
    by (subst (asm) sum_nonneg_eq_0_iff) simp_all
  then have "\<forall>v\<in>set ?xs. v = mean_of ?xs"
    by (auto simp: in_set_conv_nth)
  then show False using assms unfolding non_constant_def by metis
qed

lemma ncc_self:
  assumes "wf x" "non_constant x"
  shows "normalized_cross_correlation x x = Inr (Fin ((real (asize x) - 1) / real (asize x)))"
    and "normalized_cross_correlation x (np_negative x)
           = Inr (Fin (- ((real (asize x) - 1) / real (asize x))))"
proof -
  let ?xs = "data x"
  let ?V = "\<Sum>i<length ?xs. (?xs ! i - mean_of ?xs)\<^sup>2"
  have len: "length ?xs = asize x" using assms by (simp add: wf_def asize_def)
  have n: "2 \<le> asize x" using non_constant_length [OF assms(2)] len by simp
  have V: "0 < ?V" by (rule non_constant_spread [OF assms(2)])
  have cp: "centered_products ?xs ?xs = ?V"
    by (simp add: centered_products_def power2_eq_square)
  have ss: "sample_std ?xs * sample_std ?xs = ?V / (real (asize x) - 1)"
    using V n len by (simp add: sample_std_def)
  have pos: "sample_std ?xs * sample_std ?xs \<noteq> 0"
    using V n ss by simp
  have den: "real (asize x) * sample_std ?xs * sample_std ?xs = real (asize x) * ?V / (real (asize x) - 1)"
    using ss by (simp add: mult.assoc)
  have den0: "real (asize x) * sample_std ?xs * sample_std ?xs \<noteq> 0"
    using pos n by simp
  have val: "?V / (real (asize x) * sample_std ?xs * sample_std ?xs) = (real (asize x) - 1) / real (asize x)"
    unfolding den using V n by (simp add: field_simps)
  show "normalized_cross_correlation x x = Inr (Fin ((real (asize x) - 1) / real (asize x)))"
    using ncc_value [OF assms(1) assms(1) refl n] den0 val by (simp add: cp)
  have wfn: "wf (np_negative x)" "shape x = shape (np_negative x)"
    using assms(1) by (simp_all add: wf_def np_negative_def)
  have dn: "data (np_negative x) = map uminus ?xs"
    by (simp add: np_negative_def)
  have mn: "mean_of (map uminus ?xs) = - mean_of ?xs"
  proof -
    have "sum_list (map uminus ?xs) = - sum_list ?xs"
      using uminus_sum_list_map [of "\<lambda>v. v" ?xs] by (simp add: comp_def)
    then show ?thesis by (simp add: mean_of_def)
  qed
  have cpn: "centered_products ?xs (map uminus ?xs) = - ?V"
    by (simp add: centered_products_def mn power2_eq_square sum_negf[symmetric] algebra_simps)
  have ssn: "sample_std (map uminus ?xs) = sample_std ?xs"
  proof -
    have "(- ?xs ! i + mean_of ?xs)\<^sup>2 = (?xs ! i - mean_of ?xs)\<^sup>2" for i
      by (simp add: power2_eq_square algebra_simps)
    then show ?thesis by (simp add: sample_std_def mn)
  qed
  show "normalized_cross_correlation x (np_negative x)
           = Inr (Fin (- ((real (asize x) - 1) / real (asize x))))"
    using ncc_value [OF assms(1) wfn n] den0 val by (simp add: dn cpn ssn)
qed


text \<open>
  C3 (amended).  For a well-formed array \<open>x\<close> with \<open>N\<close> elements that are not all equal,
  \<^verbatim>\<open>normalized_cross_correlation(x, x)\<close> is \<open>(N - 1) / N\<close> and
  \<^verbatim>\<open>normalized_cross_correlation(x, -x)\<close> is \<open>- (N - 1) / N\<close>: the sum of the products is
  divided by \<open>N\<close>, the squared standard deviation by \<open>N - 1\<close>.
\<close>

theorem ncc_of_itself:
  assumes "wf x" and "non_constant x"
  shows "normalized_cross_correlation x x = Inr (Fin ((real (asize x) - 1) / real (asize x)))
       \<and> normalized_cross_correlation x (np_negative x)
           = Inr (Fin (- ((real (asize x) - 1) / real (asize x))))"
  using ncc_self [OF assms] by simp

theorem ncc_of_itself_witness:
  "wf (array1 [1, 3, 2 :: real]) \<and> non_constant (array1 [1, 3, 2])
   \<and> normalized_cross_correlation (array1 [1, 3, 2]) (array1 [1, 3, 2]) = Inr (Fin (2 / 3))
   \<and> normalized_cross_correlation (array1 [1, 3, 2]) (np_negative (array1 [1, 3, 2]))
       = Inr (Fin (- (2 / 3)))"
proof -
  have "wf (array1 [1, 3, 2 :: real])" "non_constant (array1 [1, 3, 2])"
    by (auto simp: wf_def non_constant_def array1_def)
  then show ?thesis
    using ncc_of_itself [of "array1 [1, 3, 2]"] by (simp add: asize_def array1_def)
qed

text \<open>
  For \<open>x = [0, 1]\<close> the two values are \<open>1 / 2\<close> and \<open>- 1 / 2\<close>, not \<open>1\<close> and \<open>- 1\<close>.
\<close>

theorem ncc_of_itself_counterexample:
  "wf (array1 [0, 1 :: real]) \<and> non_constant (array1 [0, 1])
   \<and> normalized_cross_correlation (array1 [0, 1]) (array1 [0, 1]) = Inr (Fin (1 / 2))
   \<and> normalized_cross_correlation (array1 [0, 1]) (np_negative (array1 [0, 1]))
       = Inr (Fin (- (1 / 2)))"
proof -
  have "wf (array1 [0, 1 :: real])" "non_constant (array1 [0, 1])"
    by (auto simp: wf_def non_constant_def array1_def)
  then show ?thesis
    using ncc_self [of "array1 [0, 1]"] by (simp add: asize_def array1_def)
qed

subsection \<open>Histograms and the entropy of their counts\<close>

lemma fl_ne_Fin: "fl_ne (Fin a) (Fin b) = (a \<noteq> b)"
  by simp

lemma entropy_terms:
  fixes N :: real
  assumes "0 < N"
  shows "py_sum (map (\<lambda>p. fl_mul p (fl_log p))
           (filter (\<lambda>p. fl_ne p (Fin 0)) (map (\<lambda>c. fl_div (Fin (real c)) (Fin N)) hist)))
       = Fin (sum_list (map (\<lambda>c. if c = 0 then 0 else real c / N * ln (real c / N)) hist))"
proof -
  let ?t = "\<lambda>c. real c / N * ln (real c / N)"
  have prob: "map (\<lambda>c. fl_div (Fin (real c)) (Fin N)) hist = map (\<lambda>c. Fin (real c / N)) hist"
    using assms by simp
  have keep: "filter (\<lambda>p. fl_ne p (Fin 0)) (map (\<lambda>c. Fin (real c / N)) hist)
      = map (\<lambda>c. Fin (real c / N)) (filter (\<lambda>c. c \<noteq> 0) hist)"
    using assms by (simp add: filter_map comp_def)
  have tms: "map (\<lambda>p. fl_mul p (fl_log p)) (map (\<lambda>c. Fin (real c / N)) (filter (\<lambda>c. c \<noteq> 0) hist))
      = map Fin (map ?t (filter (\<lambda>c. c \<noteq> 0) hist))"
    using assms by (auto simp: divide_less_0_iff)
  have "sum_list (map ?t (filter (\<lambda>c. c \<noteq> 0) hist))
      = sum_list (map (\<lambda>c. if c = 0 then 0 else ?t c) hist)"
    by (induction hist) simp_all
  then show ?thesis
    unfolding prob keep tms py_sum_Fin by (simp only:)
qed

lemma prob_entropy_Fin:
  assumes "0 < sum_list hist"
  shows "prob_entropy hist = Fin (entropy_of_counts hist)"
proof -
  let ?N = "real (sum_list hist)"
  have N: "0 < ?N" using assms of_nat_0_less_iff by blast
  have "sum_list (map (\<lambda>c. if c = 0 then 0 else real c / ?N * ln (real c / ?N)) hist)
      = (\<Sum>i<length hist. if hist ! i = 0 then 0 else real (hist ! i) / ?N * ln (real (hist ! i) / ?N))"
    by (rule sum_list_map_nth)
  also have "\<dots> = - entropy_of_counts hist"
    unfolding entropy_of_counts_def Let_def using N
    by (auto intro!: sum.cong)
  finally show ?thesis
    unfolding prob_entropy_def Let_def entropy_terms [OF N] by simp
qed


text \<open>
  The exact sum lies between 0 and the logarithm of the number of bins, and it attains the
  upper bound for equal counts.  This is a property of \<open>entropy_of_counts\<close>, not a bound on
  the float that \<^verbatim>\<open>shannon_entropy\<close> returns, which rounding can place above \<open>ln(bins)\<close>.
\<close>

lemma entropy_term_upper:
  fixes p B :: real
  assumes "0 < p" "0 < B"
  shows "- (p * ln p) \<le> p * ln B + 1 / B - p"
proof -
  have "ln (1 / (B * p)) \<le> 1 / (B * p) - 1"
    using assms by (intro ln_le_minus_one) simp
  moreover have "ln (1 / (B * p)) = - ln B - ln p"
    using assms by (simp add: ln_div ln_mult)
  ultimately have "p * (- ln B - ln p) \<le> p * (1 / (B * p) - 1)"
    using assms by (simp add: mult_left_mono)
  moreover have "p * (1 / (B * p) - 1) = 1 / B - p"
    using assms by (simp add: field_simps)
  ultimately show ?thesis by (simp add: algebra_simps)
qed

lemma entropy_of_counts_bounds:
  assumes "0 < sum_list hist"
  shows "0 \<le> entropy_of_counts hist" and "entropy_of_counts hist \<le> ln (real (length hist))"
proof -
  define N where "N = real (sum_list hist)"
  define B where "B = real (length hist)"
  define p where "p i = real (hist ! i) / N" for i
  define t where "t i = (if p i = 0 then 0 else p i * ln (p i))" for i
  have N: "0 < N" unfolding N_def using assms of_nat_0_less_iff by blast
  have B: "0 < B" unfolding B_def using assms by (cases hist) simp_all
  have H: "entropy_of_counts hist = - (\<Sum>i<length hist. t i)"
    unfolding entropy_of_counts_def Let_def t_def p_def N_def by (simp only:)
  have p0: "0 \<le> p i" for i
    unfolding p_def using N by simp
  have le1: "p i \<le> 1" if "i < length hist" for i
  proof -
    have "hist ! i \<le> sum_list hist"
      using that by (intro member_le_sum_list) simp_all
    then have "real (hist ! i) \<le> N" unfolding N_def by simp
    then show ?thesis unfolding p_def using N by simp
  qed
  have "t i \<le> 0" if "i < length hist" for i
  proof (cases "p i = 0")
    case True
    then show ?thesis by (simp add: t_def)
  next
    case False
    then have "0 < p i" using p0 [of i] by linarith
    then have "p i * ln (p i) \<le> 0"
      using le1 [OF that] by (intro mult_nonneg_nonpos) simp_all
    then show ?thesis using False by (simp add: t_def)
  qed
  then have "(\<Sum>i<length hist. t i) \<le> 0"
    by (intro sum_nonpos) simp
  then show "0 \<le> entropy_of_counts hist" using H by simp
  have up: "- t i \<le> p i * ln B + 1 / B - p i" for i
  proof (cases "p i = 0")
    case True
    then show ?thesis using B by (simp add: t_def)
  next
    case False
    then have "0 < p i" using p0 [of i] by linarith
    then show ?thesis using entropy_term_upper [of "p i" B] B False by (simp add: t_def)
  qed
  have sump: "(\<Sum>i<length hist. p i) = 1"
  proof -
    have "(\<Sum>i<length hist. real (hist ! i)) = N"
      unfolding N_def by (simp add: sum_list_sum_nth atLeast0LessThan)
    then have "(\<Sum>i<length hist. p i) = N / N"
      unfolding p_def by (simp add: sum_divide_distrib [symmetric])
    then show ?thesis using N by simp
  qed
  have "entropy_of_counts hist = (\<Sum>i<length hist. - t i)"
    using H by (simp add: sum_negf)
  also have "\<dots> \<le> (\<Sum>i<length hist. p i * ln B + 1 / B - p i)"
    by (intro sum_mono up)
  also have "\<dots> = (\<Sum>i<length hist. p i) * ln B + B * (1 / B) - (\<Sum>i<length hist. p i)"
    by (simp add: sum.distrib sum_subtractf sum_distrib_right B_def)
  also have "\<dots> = ln B"
    using B by (simp add: sump)
  finally show "entropy_of_counts hist \<le> ln (real (length hist))"
    by (simp add: B_def)
qed


lemma outer_edges_cover:
  assumes "xs \<noteq> []"
  obtains lo hi where "outer_edges xs = (lo, hi)" "lo < hi" "\<forall>v\<in>set xs. lo \<le> v \<and> v \<le> hi"
proof -
  obtain v vs where xs: "xs = v # vs" using assms by (cases xs) auto
  have mn: "fold min vs v = Min (set xs)" and mx: "fold max vs v = Max (set xs)"
    unfolding xs by (rule fold_min_Min, rule fold_max_Max)
  have bounds: "\<forall>u\<in>set xs. Min (set xs) \<le> u \<and> u \<le> Max (set xs)"
    by simp
  have le: "Min (set xs) \<le> Max (set xs)"
    using assms by simp
  show ?thesis
  proof (cases "Min (set xs) = Max (set xs)")
    case True
    have "outer_edges xs = (Min (set xs) - 1 / 2, Max (set xs) + 1 / 2)"
      unfolding outer_edges_def xs list.case mn [unfolded xs] mx [unfolded xs]
      using True [unfolded xs] by simp
    moreover have "Min (set xs) - 1 / 2 < Max (set xs) + 1 / 2"
      using le by simp
    moreover have "\<forall>u\<in>set xs. Min (set xs) - 1 / 2 \<le> u \<and> u \<le> Max (set xs) + 1 / 2"
      using bounds by (auto intro: order_trans [of "Min (set xs) - 1 / 2" "Min (set xs)"]
          order_trans [of _ "Max (set xs)" "Max (set xs) + 1 / 2"])
    ultimately show ?thesis by (rule that)
  next
    case False
    have "outer_edges xs = (Min (set xs), Max (set xs))"
      unfolding outer_edges_def xs list.case mn [unfolded xs] mx [unfolded xs]
      using False [unfolded xs] by simp
    moreover have "Min (set xs) < Max (set xs)"
      using le False by simp
    ultimately show ?thesis using bounds by (rule that)
  qed
qed

lemma bin_index_range:
  assumes "fst e < snd e" "fst e \<le> v" "v \<le> snd e" "1 \<le> n"
  shows "0 \<le> bin_index e n v" and "bin_index e n v < n"
proof -
  define r where "r = (v - fst e) / (snd e - fst e) * of_int n"
  have q: "0 \<le> (v - fst e) / (snd e - fst e)" "(v - fst e) / (snd e - fst e) \<le> 1"
    using assms by simp_all
  have r0: "0 \<le> r" unfolding r_def using q(1) assms(4) by (intro mult_nonneg_nonneg) simp_all
  have "(v - fst e) / (snd e - fst e) * of_int n \<le> 1 * of_int n"
    using q(2) assms(4) by (intro mult_right_mono) simp_all
  then have rn: "r \<le> of_int n" unfolding r_def by simp
  have f0: "0 \<le> \<lfloor>r\<rfloor>" using r0 by simp
  have fn: "\<lfloor>r\<rfloor> \<le> n" using rn by (simp add: floor_le_iff)
  have bi: "bin_index e n v = (if \<lfloor>r\<rfloor> = n then \<lfloor>r\<rfloor> - 1 else \<lfloor>r\<rfloor>)"
    by (simp add: bin_index_def Let_def r_def)
  show "0 \<le> bin_index e n v" using f0 assms(4) unfolding bi by auto
  show "bin_index e n v < n" using fn unfolding bi by auto
qed

lemma count_partition:
  assumes "\<forall>v\<in>set xs. 0 \<le> f v \<and> f v < int n"
  shows "sum_list (map (\<lambda>i. length (filter (\<lambda>v. f v = int i) xs)) [0..<n]) = length xs"
  using assms
proof (induction xs)
  case Nil
  then show ?case by simp
next
  case (Cons x xs)
  have one: "sum_list (map (\<lambda>i. if f x = int i then 1 else 0) [0..<n]) = (1::nat)"
  proof -
    have fx: "0 \<le> f x" "nat (f x) < n" using Cons.prems by auto
    have "(f x = int i) = (nat (f x) = i)" for i
      using fx(1) by auto
    then have "sum_list (map (\<lambda>i. if f x = int i then 1 else 0) [0..<n])
        = (\<Sum>i\<in>{0..<n}. if nat (f x) = i then 1 else (0::nat))"
      by (simp add: interv_sum_list_conv_sum_set_nat)
    also have "\<dots> = 1" using fx(2) by simp
    finally show ?thesis .
  qed
  have "map (\<lambda>i. length (filter (\<lambda>v. f v = int i) (x # xs))) [0..<n]
      = map (\<lambda>i. (if f x = int i then 1 else 0) + length (filter (\<lambda>v. f v = int i) xs)) [0..<n]"
    by simp
  then have "sum_list (map (\<lambda>i. length (filter (\<lambda>v. f v = int i) (x # xs))) [0..<n])
      = sum_list (map (\<lambda>i. if f x = int i then 1 else 0) [0..<n])
        + sum_list (map (\<lambda>i. length (filter (\<lambda>v. f v = int i) xs)) [0..<n])"
    by (simp only: sum_list_addf)
  then show ?case using one Cons by simp
qed

lemma np_histogram_total:
  assumes "1 \<le> bins"
  obtains hist where "np_histogram x bins = Inr hist" "length hist = nat bins"
    "sum_list hist = length (data x)"
proof -
  let ?e = "outer_edges (data x)"
  let ?hist = "map (\<lambda>i. length (filter (\<lambda>v. bin_index ?e bins v = int i) (data x))) [0..<nat bins]"
  have h: "np_histogram x bins = Inr ?hist"
    using assms by (simp add: np_histogram_def Let_def)
  have "\<forall>v\<in>set (data x). 0 \<le> bin_index ?e bins v \<and> bin_index ?e bins v < int (nat bins)"
  proof (cases "data x = []")
    case True
    then show ?thesis by simp
  next
    case False
    then obtain lo hi where e: "?e = (lo, hi)" "lo < hi" "\<forall>v\<in>set (data x). lo \<le> v \<and> v \<le> hi"
      by (rule outer_edges_cover)
    show ?thesis
    proof
      fix v assume "v \<in> set (data x)"
      then have "fst ?e < snd ?e" "fst ?e \<le> v" "v \<le> snd ?e"
        using e by simp_all
      then show "0 \<le> bin_index ?e bins v \<and> bin_index ?e bins v < int (nat bins)"
        using bin_index_range [of ?e v bins] assms by simp
    qed
  qed
  then have "sum_list ?hist = length (data x)"
    by (rule count_partition)
  then show ?thesis using h by (intro that [of ?hist]) simp_all
qed

lemma np_histogram_ex: "np_histogram (array1 [0, 1]) 3 = Inr [1, 0, 1]"
  by (simp add: np_histogram_def array1_def outer_edges_def bin_index_def upt_rec)

lemma entropy_of_counts_ex: "entropy_of_counts [1, 0, 1] = ln 2"
proof -
  have "ln (1 / 2 :: real) = - ln 2"
    by (simp add: ln_div)
  then show ?thesis
    by (simp add: entropy_of_counts_def lessThan_Suc)
qed

subsection \<open>The mutual information of an array with itself\<close>

lemma count_pairs_same:
  "length (filter (\<lambda>(u, v). f u = int i \<and> f v = int j) (zip xs xs))
     = (if i = j then length (filter (\<lambda>v. f v = int i) xs) else 0)"
  by (induction xs) auto

lemma np_histogram2d_same:
  assumes "1 \<le> bins" "np_histogram x bins = Inr hist"
  shows "np_histogram2d (data x) (data x) bins = Inr (diagonal hist)"
proof -
  let ?e = "outer_edges (data x)"
  let ?h = "\<lambda>i. length (filter (\<lambda>v. bin_index ?e bins v = int i) (data x))"
  have hist: "hist = map ?h [0..<nat bins]"
    using assms by (simp add: np_histogram_def Let_def)
  have "map (\<lambda>i. map (\<lambda>j. if i = j then ?h i else 0) [0..<nat bins]) [0..<nat bins]
      = map (\<lambda>i. map (\<lambda>j. if i = j then hist ! i else 0) [0..<nat bins]) [0..<nat bins]"
    unfolding hist by (rule map_cong [OF refl]) simp
  then show ?thesis
    using assms(1) by (simp add: np_histogram2d_def Let_def count_pairs_same diagonal_def hist)
qed

lemma diagonal_row_sum:
  fixes g :: "nat \<Rightarrow> real"
  assumes "g 0 = 0" "i < n"
  shows "sum_list (map (\<lambda>j. g (if i = j then a else 0)) [0..<n]) = g a"
proof -
  have "g (if i = j then a else 0) = (if i = j then g a else 0)" for j
    using assms(1) by simp
  then have "sum_list (map (\<lambda>j. g (if i = j then a else 0)) [0..<n])
      = (\<Sum>j\<in>{0..<n}. if i = j then g a else 0)"
    by (simp add: interv_sum_list_conv_sum_set_nat)
  also have "\<dots> = g a" using assms(2) by simp
  finally show ?thesis .
qed

lemma sum_list_concat_rows: "sum_list (concat xss) = sum_list (map sum_list xss)"
  for xss :: "real list list"
  by (induction xss) simp_all

lemma diagonal_sum:
  fixes g :: "nat \<Rightarrow> real"
  assumes "g 0 = 0"
  shows "sum_list (map g (concat (diagonal hist))) = sum_list (map g hist)"
proof -
  let ?n = "length hist"
  have "sum_list (map g (concat (diagonal hist)))
      = sum_list (map (\<lambda>i. sum_list (map (\<lambda>j. g (if i = j then hist ! i else 0)) [0..<?n])) [0..<?n])"
    by (simp add: diagonal_def map_concat sum_list_concat_rows comp_def)
  also have "\<dots> = sum_list (map (\<lambda>i. g (hist ! i)) [0..<?n])"
    by (rule arg_cong [where f = sum_list], rule map_cong [OF refl])
      (simp add: diagonal_row_sum [of g, OF assms])
  also have "\<dots> = sum_list (map g hist)"
  proof -
    have "map (\<lambda>i. g (hist ! i)) [0..<length hist] = map g hist"
      by (rule nth_equalityI) simp_all
    then show ?thesis by simp
  qed
  finally show ?thesis .
qed


lemma foldl_fl_add_NaN: "foldl fl_add NaN xs = NaN"
  by (induction xs) simp_all

lemma py_sum_NaN: "xs \<noteq> [] \<Longrightarrow> \<forall>v\<in>set xs. v = NaN \<Longrightarrow> py_sum xs = NaN"
  by (cases xs) (simp_all add: py_sum_def foldl_fl_add_NaN)

lemma prob_entropy_NaN:
  assumes "sum_list hist = 0" "hist \<noteq> []"
  shows "prob_entropy hist = NaN"
proof -
  have z: "\<forall>c\<in>set hist. c = 0" using assms(1) by simp
  have prob: "map (\<lambda>c. fl_div (Fin (real c)) (Fin 0)) hist = map (\<lambda>c. NaN) hist"
    using z by (intro map_cong) (simp_all add: inf_of_sign_def)
  have nan: "py_sum (map (\<lambda>p. fl_mul p (fl_log p)) (filter (\<lambda>p. fl_ne p (Fin 0)) (map (\<lambda>c. NaN) hist))) = NaN"
    using assms(2) by (intro py_sum_NaN) (auto simp: filter_map comp_def)
  show ?thesis
    unfolding prob_entropy_def Let_def assms(1) of_nat_0 prob nan by simp
qed

lemma prob_entropy_sum:
  assumes "0 < sum_list hist"
  shows "prob_entropy hist = Fin (- sum_list (map (\<lambda>c. if c = 0 then 0
           else real c / real (sum_list hist) * ln (real c / real (sum_list hist))) hist))"
proof -
  have N: "0 < real (sum_list hist)" using assms of_nat_0_less_iff by blast
  show ?thesis
    unfolding prob_entropy_def Let_def entropy_terms [OF N] by simp
qed

lemma sum_list_diagonal: "sum_list (concat (diagonal hist)) = sum_list hist"
proof -
  have "sum_list (map real (concat (diagonal hist))) = sum_list (map real hist)"
    by (rule diagonal_sum) simp
  then have "real (sum_list (concat (diagonal hist))) = real (sum_list hist)"
    by (simp add: sum_list_of_nat comp_def)
  then show ?thesis by simp
qed

lemma prob_entropy_diagonal:
  assumes "hist \<noteq> []"
  shows "prob_entropy (concat (diagonal hist)) = prob_entropy hist"
proof (cases "sum_list hist = 0")
  case True
  have "concat (diagonal hist) \<noteq> []"
    using assms by (cases hist) (simp_all add: diagonal_def upt_rec)
  then show ?thesis
    using True assms by (simp add: prob_entropy_NaN sum_list_diagonal)
next
  case False
  then have pos: "0 < sum_list hist" using gr0I by blast
  then have pos': "0 < sum_list (concat (diagonal hist))" by (simp only: sum_list_diagonal)
  let ?g = "\<lambda>c. if c = 0 then 0 else real c / real (sum_list hist) * ln (real c / real (sum_list hist))"
  have "sum_list (map ?g (concat (diagonal hist))) = sum_list (map ?g hist)"
    by (rule diagonal_sum) simp
  then show ?thesis
    unfolding prob_entropy_sum [OF pos] prob_entropy_sum [OF pos'] sum_list_diagonal by simp
qed


lemma entropy_cancel: "h = NaN \<or> (\<exists>r. h = Fin r) \<Longrightarrow> fl_sub (fl_add h h) h = h"
  by (auto simp: fl_sub_def)

text \<open>
  C7.  For at least one bin, the joint histogram of an array with itself has the counts of
  its histogram on the diagonal and 0 elsewhere, \<^verbatim>\<open>joint_entropy(x, x)\<close> is
  \<^verbatim>\<open>shannon_entropy(x)\<close>, and so is \<^verbatim>\<open>mutual_information(x, x)\<close>.  The value is finite for
  a non-empty array (and NaN in all three for an empty one).
\<close>

theorem mutual_information_self:
  assumes "1 \<le> bins"
  shows "\<exists>hist h. np_histogram x bins = Inr hist
          \<and> np_histogram2d (data x) (data x) bins = Inr (diagonal hist)
          \<and> shannon_entropy x bins = Inr h
          \<and> joint_entropy x x bins = Inr h
          \<and> mutual_information x x bins = Inr h
          \<and> (data x \<noteq> [] \<longrightarrow> is_finite h)"
proof -
  obtain hist where h: "np_histogram x bins = Inr hist" "length hist = nat bins"
    "sum_list hist = length (data x)"
    using assms by (rule np_histogram_total)
  have ne: "hist \<noteq> []" using h(2) assms by auto
  have d: "np_histogram2d (data x) (data x) bins = Inr (diagonal hist)"
    using assms h(1) by (rule np_histogram2d_same)
  have s: "shannon_entropy x bins = Inr (prob_entropy hist)"
    using h(1) by (simp add: shannon_entropy_def)
  have j: "joint_entropy x x bins = Inr (prob_entropy hist)"
    using d prob_entropy_diagonal [OF ne] by (simp add: joint_entropy_def)
  have fin: "prob_entropy hist = Fin (entropy_of_counts hist)" if "data x \<noteq> []"
    using that h(3) by (intro prob_entropy_Fin) simp
  have nan: "prob_entropy hist = NaN" if "data x = []"
    using that h(3) ne by (intro prob_entropy_NaN) simp_all
  have "fl_sub (fl_add (prob_entropy hist) (prob_entropy hist)) (prob_entropy hist) = prob_entropy hist"
    using fin nan by (intro entropy_cancel) blast
  then have m: "mutual_information x x bins = Inr (prob_entropy hist)"
    using s j by (simp add: mutual_information_def)
  have "data x \<noteq> [] \<longrightarrow> is_finite (prob_entropy hist)"
    using fin by simp
  then show ?thesis using h(1) d s j m by blast
qed

lemma shannon_entropy_ex: "shannon_entropy (array1 [0, 1]) 3 = Inr (Fin (ln 2))"
proof -
  have "prob_entropy [1, 0, 1] = Fin (entropy_of_counts [1, 0, 1])"
    by (rule prob_entropy_Fin) simp
  then show ?thesis
    unfolding shannon_entropy_def np_histogram_ex entropy_of_counts_ex by simp
qed

lemma diagonal_ex: "diagonal [1, 0, 1] = [[1, 0, 0], [0, 0, 0], [0, 0, 1]]"
  by (simp add: diagonal_def upt_rec)

text \<open>The array \<open>[0, 1]\<close> with three bins: all three are \<open>ln 2\<close>.\<close>

theorem mutual_information_self_witness:
  "(1 :: int) \<le> 3 \<and> data (array1 [0, 1 :: real]) \<noteq> []
   \<and> np_histogram (array1 [0, 1]) 3 = Inr [1, 0, 1]
   \<and> np_histogram2d (data (array1 [0, 1])) (data (array1 [0, 1])) 3
       = Inr [[1, 0, 0], [0, 0, 0], [0, 0, 1]]
   \<and> shannon_entropy (array1 [0, 1]) 3 = Inr (Fin (ln 2))
   \<and> joint_entropy (array1 [0, 1]) (array1 [0, 1]) 3 = Inr (Fin (ln 2))
   \<and> mutual_information (array1 [0, 1]) (array1 [0, 1]) 3 = Inr (Fin (ln 2))"
proof -
  have b: "(1 :: int) \<le> 3" by simp
  have ne: "data (array1 [0, 1 :: real]) \<noteq> []" by (simp add: array1_def)
  obtain hist h where h: "np_histogram (array1 [0, 1]) 3 = Inr hist"
    "np_histogram2d (data (array1 [0, 1])) (data (array1 [0, 1])) 3 = Inr (diagonal hist)"
    "shannon_entropy (array1 [0, 1]) 3 = Inr h"
    "joint_entropy (array1 [0, 1]) (array1 [0, 1]) 3 = Inr h"
    "mutual_information (array1 [0, 1]) (array1 [0, 1]) 3 = Inr h"
    using mutual_information_self [of 3 "array1 [0, 1]", OF b] by blast
  have hist: "hist = [1, 0, 1]"
    using h(1) unfolding np_histogram_ex by simp
  have hv: "h = Fin (ln 2)"
    using h(3) unfolding shannon_entropy_ex by simp
  show ?thesis
    using b ne np_histogram_ex h(2-5) unfolding hist hv diagonal_ex by (intro conjI)
qed

end
